theory Spec2Isabelle
  imports Complex_Main
begin

section \<open>Values of the JavaScript runtime\<close>

text \<open>
  A JavaScript \<open>number\<close> is an IEEE 754 double: a finite value, one of the two
  infinities, or NaN. A finite double is modelled by the real number it denotes; the two
  zeros are one value: both are falsy, \<open>BigInt\<close> maps both to \<open>0n\<close> and JSON writes
  both as \<open>0\<close>. Which reals are doubles is decided by the rounding function of the
  runtime (see \<open>runtime\<close>), never by the model.
\<close>

datatype number = NaN | PosInf | NegInf | Fin real

text \<open>ToBoolean on a number: \<open>0\<close> and \<open>NaN\<close> are falsy, every other number is truthy.\<close>

fun truthy_number :: "number \<Rightarrow> bool" where
  "truthy_number NaN = False"
| "truthy_number PosInf = True"
| "truthy_number NegInf = True"
| "truthy_number (Fin x) = (x \<noteq> 0)"

text \<open>
  Everything the source can throw. \<open>HoldingsError\<close> and \<open>SearchError\<close> are the two
  \<open>new Error(...)\<close> of \<open>fetchTokens\<close>, carrying the upstream status text;
  \<open>FetchRejected\<close> is a rejected \<open>fetch\<close> or \<open>json()\<close> promise; \<open>SyntaxError\<close> and
  \<open>RangeError\<close> are thrown by the BigInt operations.
\<close>

datatype error =
    HoldingsError string
  | SearchError string
  | FetchRejected
  | SyntaxError
  | RangeError

text \<open>
  Three operations that the repository takes from its platform are parameters of the
  model:
  \<^item> \<open>BigInt_of_string\<close> is \<open>BigInt(s)\<close> on a string, \<open>None\<close> when it throws a
    SyntaxError;
  \<^item> \<open>round_to_double\<close> maps a real number to the double nearest to it (an infinity on
    overflow);
  \<^item> \<open>isAddress\<close> is the address-format predicate of \<open>@solana/kit\<close>.
  Every theorem below holds for all runtimes.
\<close>

record runtime =
  BigInt_of_string :: "string \<Rightarrow> int option"
  round_to_double :: "real \<Rightarrow> number"
  isAddress :: "string \<Rightarrow> bool"

text \<open>\<open>BigInt(n)\<close> on a number: a RangeError unless \<open>n\<close> is an integer.\<close>

fun BigInt_of_number :: "number \<Rightarrow> error + int" where
  "BigInt_of_number (Fin x) = (if x = of_int \<lfloor>x\<rfloor> then Inr \<lfloor>x\<rfloor> else Inl RangeError)"
| "BigInt_of_number _ = Inl RangeError"

text \<open>
  \<open>a ** b\<close> on BigInts: a RangeError for a negative exponent. A BigInt is an integer of
  any size, as the language defines it; the size limit of an engine is not modelled.
\<close>

definition BigInt_power :: "int \<Rightarrow> int \<Rightarrow> error + int" where
  "BigInt_power a b = (if b < 0 then Inl RangeError else Inr (a ^ nat b))"

text \<open>
  \<open>a / b\<close> on BigInts: a RangeError for a zero divisor, otherwise the quotient rounded
  towards zero.
\<close>

definition BigInt_divide :: "int \<Rightarrow> int \<Rightarrow> error + int" where
  "BigInt_divide a b =
     (if b = 0 then Inl RangeError else Inr (sgn a * sgn b * (\<bar>a\<bar> div \<bar>b\<bar>)))"

text \<open>\<open>Number(b)\<close> on a BigInt: the nearest double.\<close>

definition Number_of_BigInt :: "runtime \<Rightarrow> int \<Rightarrow> number" where
  "Number_of_BigInt rt b = round_to_double rt (of_int b)"

text \<open>\<open>x * y\<close> on numbers: the IEEE 754 product, the exact product rounded.\<close>

fun sign_number :: "number \<Rightarrow> real" where
  "sign_number NaN = 0"
| "sign_number PosInf = 1"
| "sign_number NegInf = - 1"
| "sign_number (Fin x) = sgn x"

definition infinity_of_sign :: "real \<Rightarrow> number" where
  "infinity_of_sign s = (if s = 0 then NaN else if 0 < s then PosInf else NegInf)"

fun number_times :: "runtime \<Rightarrow> number \<Rightarrow> number \<Rightarrow> number" where
  "number_times rt NaN y = NaN"
| "number_times rt x NaN = NaN"
| "number_times rt (Fin x) (Fin y) = round_to_double rt (x * y)"
| "number_times rt x y = infinity_of_sign (sign_number x * sign_number y)"

section \<open>Types of the endpoint\<close>

type_synonym Address = string

text \<open>\<open>TokenData\<close>, one element of the response.\<close>

record TokenData =
  mint :: Address
  amount :: int
  name :: string
  symbol :: string
  icon :: "string option"
  decimals :: number
  usdPriceUnit :: "number option"
  usdValue :: "number option"
  jupiterIsVerified :: bool
  priceChange24hPercent :: "number option"

text \<open>
  \<open>JupiterHoldingsApiResponse\<close>. The field \<open>tokens\<close> is a JavaScript object; it is
  given by its entries, in the order of \<open>Object.entries\<close>. Amounts are strings.
\<close>

record TokenAccount =
  account_amount :: string

record JupiterHoldingsApiResponse =
  holdings_amount :: string
  holdings_tokens :: "(Address \<times> TokenAccount list) list"

text \<open>
  \<open>JupiterTokenSearchApiResponse\<close>, one record of a search response. An optional field
  is an \<open>option\<close>, \<open>None\<close> when it is omitted.
\<close>

record Stats24h =
  priceChange :: "number option"

record JupiterTokenSearchApiResponse =
  token_id :: Address
  token_name :: string
  token_symbol :: string
  token_decimals :: number
  token_icon :: "string option"
  token_usdPrice :: "number option"
  token_isVerified :: "bool option"
  token_stats24h :: "Stats24h option"

definition SOL_MINT :: Address where
  "SOL_MINT = ''So11111111111111111111111111111111111111112''"

section \<open>The balance object\<close>

text \<open>
  \<open>mintAndTotalBalance\<close> is a JavaScript object whose keys have the type \<open>Address\<close>:
  base58 strings of 32 to 44 characters, none of which is an array index or the name of a
  property of \<open>Object.prototype\<close>. On such keys an object is an association list in
  insertion order: an assignment to a key it has replaces the value in place, an
  assignment to a new key appends it, and \<open>Object.keys\<close> lists the keys in that order.
\<close>

type_synonym balances = "(Address \<times> int) list"

fun assign :: "balances \<Rightarrow> Address \<Rightarrow> int \<Rightarrow> balances" where
  "assign [] k v = [(k, v)]"
| "assign ((k', v') # m) k v = (if k' = k then (k, v) # m else (k', v') # assign m k v)"

definition Object_keys :: "balances \<Rightarrow> Address list" where
  "Object_keys m = map fst m"

text \<open>\<open>m[k] || 0n\<close>: the value at \<open>k\<close>, and \<open>0n\<close> when it is missing or is \<open>0n\<close>.\<close>

definition balance_or_zero :: "balances \<Rightarrow> Address \<Rightarrow> int" where
  "balance_or_zero m k =
     (case map_of m k of None \<Rightarrow> 0 | Some v \<Rightarrow> if v = 0 then 0 else v)"

section \<open>One Token Record\<close>

text \<open>
  The \<open>usdValue\<close> expression
  \<open>Number(totalBalance / 10n ** BigInt(token.decimals)) * token.usdPrice\<close>,
  evaluated only for a truthy price.
\<close>

definition usdValue_of :: "runtime \<Rightarrow> int \<Rightarrow> number \<Rightarrow> number \<Rightarrow> error + number" where
  "usdValue_of rt totalBalance dec price =
     (case BigInt_of_number dec of
        Inl e \<Rightarrow> Inl e
      | Inr d \<Rightarrow>
          (case BigInt_power 10 d of
             Inl e \<Rightarrow> Inl e
           | Inr p \<Rightarrow>
               (case BigInt_divide totalBalance p of
                  Inl e \<Rightarrow> Inl e
                | Inr q \<Rightarrow> Inr (number_times rt (Number_of_BigInt rt q) price))))"

text \<open>\<open>x || null\<close> on an optional number and on an optional string.\<close>

definition number_or_null :: "number option \<Rightarrow> number option" where
  "number_or_null x =
     (case x of None \<Rightarrow> None | Some n \<Rightarrow> if truthy_number n then Some n else None)"

definition string_or_null :: "string option \<Rightarrow> string option" where
  "string_or_null x =
     (case x of None \<Rightarrow> None | Some s \<Rightarrow> if s \<noteq> [] then Some s else None)"

text \<open>\<open>x || false\<close> on an optional boolean.\<close>

definition bool_or_false :: "bool option \<Rightarrow> bool" where
  "bool_or_false x = (case x of None \<Rightarrow> False | Some b \<Rightarrow> b)"

text \<open>\<open>token.stats24h?.priceChange\<close>.\<close>

definition stats24h_priceChange :: "Stats24h option \<Rightarrow> number option" where
  "stats24h_priceChange s = (case s of None \<Rightarrow> None | Some st \<Rightarrow> priceChange st)"

text \<open>
  The callback of \<open>tokenDataBatch.map\<close>: the Token Record of one search record. Only the
  \<open>usdValue\<close> field can throw; its test \<open>token.usdPrice ? ... : null\<close> is the case
  distinction on \<open>token.usdPrice || null\<close>.
\<close>

definition toTokenData ::
  "runtime \<Rightarrow> balances \<Rightarrow> JupiterTokenSearchApiResponse \<Rightarrow> error + TokenData" where
  "toTokenData rt mintAndTotalBalance token =
     (let totalBalance = balance_or_zero mintAndTotalBalance (token_id token) in
      case (case number_or_null (token_usdPrice token) of
              None \<Rightarrow> Inr None
            | Some price \<Rightarrow>
                (case usdValue_of rt totalBalance (token_decimals token) price of
                   Inl e \<Rightarrow> Inl e
                 | Inr v \<Rightarrow> Inr (Some v))) of
        Inl e \<Rightarrow> Inl e
      | Inr value \<Rightarrow>
          Inr \<lparr> mint = token_id token,
                amount = totalBalance,
                name = (if token_id token = SOL_MINT then ''Solana'' else token_name token),
                symbol = token_symbol token,
                icon = string_or_null (token_icon token),
                decimals = token_decimals token,
                usdPriceUnit = number_or_null (token_usdPrice token),
                usdValue = value,
                jupiterIsVerified = bool_or_false (token_isVerified token),
                priceChange24hPercent =
                  number_or_null (stats24h_priceChange (token_stats24h token)) \<rparr>)"

section \<open>Balance collection\<close>

text \<open>\<open>tokens.reduce((sum, token) => sum + BigInt(token.amount), 0n)\<close>, with the sum so far.\<close>

fun sum_amounts :: "runtime \<Rightarrow> TokenAccount list \<Rightarrow> int \<Rightarrow> error + int" where
  "sum_amounts rt [] acc = Inr acc"
| "sum_amounts rt (token # tokens) acc =
     (case BigInt_of_string rt (account_amount token) of
        None \<Rightarrow> Inl SyntaxError
      | Some v \<Rightarrow> sum_amounts rt tokens (acc + v))"

text \<open>The loop over \<open>Object.entries(holdingsData.tokens)\<close>.\<close>

fun add_holdings ::
  "runtime \<Rightarrow> (Address \<times> TokenAccount list) list \<Rightarrow> balances \<Rightarrow> error + balances" where
  "add_holdings rt [] mintAndTotalBalance = Inr mintAndTotalBalance"
| "add_holdings rt ((mintAddress, tokens) # entries) mintAndTotalBalance =
     (case sum_amounts rt tokens 0 of
        Inl e \<Rightarrow> Inl e
      | Inr balanceToAdd \<Rightarrow>
          add_holdings rt entries
            (if 0 < balanceToAdd
             then assign mintAndTotalBalance mintAddress
                    (balance_or_zero mintAndTotalBalance mintAddress + balanceToAdd)
             else mintAndTotalBalance))"

text \<open>Lines 133 to 148: the balance object of a holdings response.\<close>

definition collect_balances :: "runtime \<Rightarrow> JupiterHoldingsApiResponse \<Rightarrow> error + balances" where
  "collect_balances rt holdingsData =
     (case BigInt_of_string rt (holdings_amount holdingsData) of
        None \<Rightarrow> Inl SyntaxError
      | Some native \<Rightarrow>
          add_holdings rt (holdings_tokens holdingsData) (assign [] SOL_MINT native))"

section \<open>The upstream provider\<close>

text \<open>
  A request names the endpoint, what is asked and the \<open>x-api-key\<close> header: the address of
  a holdings request, the value of the parameter \<open>query\<close> of a search request.
\<close>

datatype request =
    Holdings_request Address string
  | Search_request string string

text \<open>
  What \<open>fetch\<close> and \<open>json()\<close> give: a rejected promise, a response that is not \<open>ok\<close> with
  its status text, or the body of an \<open>ok\<close> response.
\<close>

datatype 'a response = Rejected | Status_not_ok string | Success 'a

text \<open>
  The provider answers a request knowing the requests sent before it, so that it need not
  answer the same request twice in the same way.
\<close>

record upstream =
  holdings_endpoint :: "request list \<Rightarrow> request \<Rightarrow> JupiterHoldingsApiResponse response"
  search_endpoint ::
    "request list \<Rightarrow> request \<Rightarrow> JupiterTokenSearchApiResponse list response"

section \<open>Metadata enrichment\<close>

text \<open>\<open>xs.slice(a, b)\<close> for indices that are not negative, and \<open>xs.join(sep)\<close>.\<close>

definition slice :: "'a list \<Rightarrow> nat \<Rightarrow> nat \<Rightarrow> 'a list" where
  "slice xs a b = take (b - a) (drop a xs)"

fun join :: "string list \<Rightarrow> string \<Rightarrow> string" where
  "join [] sep = []"
| "join [x] sep = x"
| "join (x # y # ys) sep = x @ sep @ join (y # ys) sep"

text \<open>\<open>tokenDataBatch.map(...)\<close>; a callback that throws ends it.\<close>

fun map_tokens ::
  "runtime \<Rightarrow> balances \<Rightarrow> JupiterTokenSearchApiResponse list \<Rightarrow> error + TokenData list" where
  "map_tokens rt m [] = Inr []"
| "map_tokens rt m (token # tokens) =
     (case toTokenData rt m token of
        Inl e \<Rightarrow> Inl e
      | Inr r \<Rightarrow>
          (case map_tokens rt m tokens of
             Inl e \<Rightarrow> Inl e
           | Inr rs \<Rightarrow> Inr (r # rs)))"

text \<open>
  The batch loop \<open>for (let i = 0; i < mintsToFetch.length; i += 100)\<close> from index \<open>i\<close> on,
  with the records pushed so far and the requests sent so far. It returns the result and
  the requests sent.
\<close>

function search_batches ::
  "runtime \<Rightarrow> upstream \<Rightarrow> string \<Rightarrow> balances \<Rightarrow> Address list \<Rightarrow> nat \<Rightarrow>
   TokenData list \<Rightarrow> request list \<Rightarrow> (error + TokenData list) \<times> request list" where
  "search_batches rt up jupiterApiKey m mintsToFetch i tokenData sent =
     (if i < length mintsToFetch then
        (let mintsForBatch = slice mintsToFetch i (i + 100);
             req = Search_request (join mintsForBatch '','') jupiterApiKey
         in case search_endpoint up sent req of
              Rejected \<Rightarrow> (Inl FetchRejected, sent @ [req])
            | Status_not_ok statusText \<Rightarrow> (Inl (SearchError statusText), sent @ [req])
            | Success tokenDataBatch \<Rightarrow>
                (case map_tokens rt m tokenDataBatch of
                   Inl e \<Rightarrow> (Inl e, sent @ [req])
                 | Inr batch \<Rightarrow>
                     search_batches rt up jupiterApiKey m mintsToFetch (i + 100)
                       (tokenData @ batch) (sent @ [req])))
      else (Inr tokenData, sent))"
  by pat_completeness auto
termination
  by (relation "measure (\<lambda>(rt, up, k, m, mintsToFetch, i, tokenData, sent).
        length mintsToFetch - i)") auto

declare search_batches.simps [simp del]

text \<open>\<open>fetchTokens\<close> of \<open>api/tokens/[address].ts\<close>: the result and the requests sent.\<close>

definition fetchTokens ::
  "runtime \<Rightarrow> upstream \<Rightarrow> Address \<Rightarrow> string \<Rightarrow> (error + TokenData list) \<times> request list" where
  "fetchTokens rt up address jupiterApiKey =
     (let req = Holdings_request address jupiterApiKey in
      case holdings_endpoint up [] req of
        Rejected \<Rightarrow> (Inl FetchRejected, [req])
      | Status_not_ok statusText \<Rightarrow> (Inl (HoldingsError statusText), [req])
      | Success holdingsData \<Rightarrow>
          (case collect_balances rt holdingsData of
             Inl e \<Rightarrow> (Inl e, [req])
           | Inr mintAndTotalBalance \<Rightarrow>
               search_batches rt up jupiterApiKey mintAndTotalBalance
                 (Object_keys mintAndTotalBalance) 0 [] [req]))"

section \<open>The earlier version of the aggregator\<close>

text \<open>
  The second source file holds an earlier version of the endpoint. Its \<open>fetchTokens\<close>
  (lines 79 to 138) is embedded on its own, expression by expression, with the suffix
  \<open>_part_000\<close>.
\<close>

definition usdValue_of_part_000 ::
  "runtime \<Rightarrow> int \<Rightarrow> number \<Rightarrow> number \<Rightarrow> error + number" where
  "usdValue_of_part_000 rt totalBalance dec price =
     (case BigInt_of_number dec of
        Inl e \<Rightarrow> Inl e
      | Inr d \<Rightarrow>
          (case BigInt_power 10 d of
             Inl e \<Rightarrow> Inl e
           | Inr p \<Rightarrow>
               (case BigInt_divide totalBalance p of
                  Inl e \<Rightarrow> Inl e
                | Inr q \<Rightarrow> Inr (number_times rt (Number_of_BigInt rt q) price))))"

definition toTokenData_part_000 ::
  "runtime \<Rightarrow> balances \<Rightarrow> JupiterTokenSearchApiResponse \<Rightarrow> error + TokenData" where
  "toTokenData_part_000 rt mintAndTotalBalance token =
     (let totalBalance = balance_or_zero mintAndTotalBalance (token_id token) in
      case (case number_or_null (token_usdPrice token) of
              None \<Rightarrow> Inr None
            | Some price \<Rightarrow>
                (case usdValue_of_part_000 rt totalBalance (token_decimals token) price of
                   Inl e \<Rightarrow> Inl e
                 | Inr v \<Rightarrow> Inr (Some v))) of
        Inl e \<Rightarrow> Inl e
      | Inr value \<Rightarrow>
          Inr \<lparr> mint = token_id token,
                amount = totalBalance,
                name = (if token_id token = SOL_MINT then ''Solana'' else token_name token),
                symbol = token_symbol token,
                icon = string_or_null (token_icon token),
                decimals = token_decimals token,
                usdPriceUnit = number_or_null (token_usdPrice token),
                usdValue = value,
                jupiterIsVerified = bool_or_false (token_isVerified token),
                priceChange24hPercent =
                  number_or_null (stats24h_priceChange (token_stats24h token)) \<rparr>)"

fun sum_amounts_part_000 :: "runtime \<Rightarrow> TokenAccount list \<Rightarrow> int \<Rightarrow> error + int" where
  "sum_amounts_part_000 rt [] acc = Inr acc"
| "sum_amounts_part_000 rt (token # tokens) acc =
     (case BigInt_of_string rt (account_amount token) of
        None \<Rightarrow> Inl SyntaxError
      | Some v \<Rightarrow> sum_amounts_part_000 rt tokens (acc + v))"

fun add_holdings_part_000 ::
  "runtime \<Rightarrow> (Address \<times> TokenAccount list) list \<Rightarrow> balances \<Rightarrow> error + balances" where
  "add_holdings_part_000 rt [] mintAndTotalBalance = Inr mintAndTotalBalance"
| "add_holdings_part_000 rt ((mintAddress, tokens) # entries) mintAndTotalBalance =
     (case sum_amounts_part_000 rt tokens 0 of
        Inl e \<Rightarrow> Inl e
      | Inr balanceToAdd \<Rightarrow>
          add_holdings_part_000 rt entries
            (if 0 < balanceToAdd
             then assign mintAndTotalBalance mintAddress
                    (balance_or_zero mintAndTotalBalance mintAddress + balanceToAdd)
             else mintAndTotalBalance))"

definition collect_balances_part_000 ::
  "runtime \<Rightarrow> JupiterHoldingsApiResponse \<Rightarrow> error + balances" where
  "collect_balances_part_000 rt holdingsData =
     (case BigInt_of_string rt (holdings_amount holdingsData) of
        None \<Rightarrow> Inl SyntaxError
      | Some native \<Rightarrow>
          add_holdings_part_000 rt (holdings_tokens holdingsData) (assign [] SOL_MINT native))"

fun map_tokens_part_000 ::
  "runtime \<Rightarrow> balances \<Rightarrow> JupiterTokenSearchApiResponse list \<Rightarrow> error + TokenData list" where
  "map_tokens_part_000 rt m [] = Inr []"
| "map_tokens_part_000 rt m (token # tokens) =
     (case toTokenData_part_000 rt m token of
        Inl e \<Rightarrow> Inl e
      | Inr r \<Rightarrow>
          (case map_tokens_part_000 rt m tokens of
             Inl e \<Rightarrow> Inl e
           | Inr rs \<Rightarrow> Inr (r # rs)))"

function search_batches_part_000 ::
  "runtime \<Rightarrow> upstream \<Rightarrow> string \<Rightarrow> balances \<Rightarrow> Address list \<Rightarrow> nat \<Rightarrow>
   TokenData list \<Rightarrow> request list \<Rightarrow> (error + TokenData list) \<times> request list" where
  "search_batches_part_000 rt up jupiterApiKey m mintsToFetch i tokenData sent =
     (if i < length mintsToFetch then
        (let mintsForBatch = slice mintsToFetch i (i + 100);
             req = Search_request (join mintsForBatch '','') jupiterApiKey
         in case search_endpoint up sent req of
              Rejected \<Rightarrow> (Inl FetchRejected, sent @ [req])
            | Status_not_ok statusText \<Rightarrow> (Inl (SearchError statusText), sent @ [req])
            | Success tokenDataBatch \<Rightarrow>
                (case map_tokens_part_000 rt m tokenDataBatch of
                   Inl e \<Rightarrow> (Inl e, sent @ [req])
                 | Inr batch \<Rightarrow>
                     search_batches_part_000 rt up jupiterApiKey m mintsToFetch (i + 100)
                       (tokenData @ batch) (sent @ [req])))
      else (Inr tokenData, sent))"
  by pat_completeness auto
termination
  by (relation "measure (\<lambda>(rt, up, k, m, mintsToFetch, i, tokenData, sent).
        length mintsToFetch - i)") auto

declare search_batches_part_000.simps [simp del]

definition fetchTokens_part_000 ::
  "runtime \<Rightarrow> upstream \<Rightarrow> Address \<Rightarrow> string \<Rightarrow> (error + TokenData list) \<times> request list" where
  "fetchTokens_part_000 rt up address jupiterApiKey =
     (let req = Holdings_request address jupiterApiKey in
      case holdings_endpoint up [] req of
        Rejected \<Rightarrow> (Inl FetchRejected, [req])
      | Status_not_ok statusText \<Rightarrow> (Inl (HoldingsError statusText), [req])
      | Success holdingsData \<Rightarrow>
          (case collect_balances_part_000 rt holdingsData of
             Inl e \<Rightarrow> (Inl e, [req])
           | Inr mintAndTotalBalance \<Rightarrow>
               search_batches_part_000 rt up jupiterApiKey mintAndTotalBalance
                 (Object_keys mintAndTotalBalance) 0 [] [req]))"

section \<open>The request handler\<close>

text \<open>
  Of a request the handler reads the method, the \<open>origin\<close> header and the query parameter
  \<open>address\<close>, which is absent, one string or an array of strings.
\<close>

datatype query_value = Absent | Single string | Multiple "string list"

record VercelRequest =
  request_method :: "string option"
  request_origin :: "string option"
  query_address :: query_value

datatype body = Null_body | Error_body string | Tokens_body "TokenData list"

record VercelResponse =
  status :: nat
  headers :: "(string \<times> string) list"
  body :: body

definition ALLOWED_ORIGINS :: "string list" where
  "ALLOWED_ORIGINS = []"

text \<open>The test of the regular expression \<open>^http:\/\/localhost(:\d+)?$\<close>.\<close>

definition localhost_origin :: "string \<Rightarrow> bool" where
  "localhost_origin origin =
     (let prefix = ''http://localhost''; port = drop (length prefix) origin
      in take (length prefix) origin = prefix \<and>
         (port = [] \<or>
          (hd port = CHR '':'' \<and> tl port \<noteq> [] \<and> list_all (\<lambda>c. c \<in> set ''0123456789'') (tl port))))"

definition isAllowedOrigin :: "string option \<Rightarrow> string option" where
  "isAllowedOrigin origin =
     (case origin of
        None \<Rightarrow> None
      | Some s \<Rightarrow>
          if s = [] then None
          else if s \<in> set ALLOWED_ORIGINS then Some s
          else if localhost_origin s then Some s
          else None)"

definition setCorsHeaders :: "VercelRequest \<Rightarrow> (string \<times> string) list" where
  "setCorsHeaders req =
     (case isAllowedOrigin (request_origin req) of
        None \<Rightarrow> []
      | Some allowedOrigin \<Rightarrow>
          [(''Access-Control-Allow-Origin'', allowedOrigin),
           (''Access-Control-Allow-Methods'', ''GET, OPTIONS''),
           (''Access-Control-Allow-Headers'', ''Content-Type'')])"

text \<open>\<open>!address\<close> and \<open>Array.isArray(address)\<close> on the query parameter.\<close>

fun falsy_query :: "query_value \<Rightarrow> bool" where
  "falsy_query Absent = True"
| "falsy_query (Single s) = (s = [])"
| "falsy_query (Multiple vs) = False"

fun is_array :: "query_value \<Rightarrow> bool" where
  "is_array (Multiple vs) = True"
| "is_array _ = False"

text \<open>
  Lines 43 to 58, the address validator: the status and the message of the error
  response, or the validated address. After the two tests the parameter is a string, so
  the last case is never reached.
\<close>

definition validate_address :: "runtime \<Rightarrow> query_value \<Rightarrow> (nat \<times> string) + Address" where
  "validate_address rt address =
     (if falsy_query address then Inl (400, ''Address parameter is required'')
      else if is_array address then Inl (400, ''Address parameter must be a single value'')
      else (case address of
              Single s \<Rightarrow>
                if \<not> isAddress rt s then Inl (400, ''Invalid address parameter'') else Inr s
            | _ \<Rightarrow> Inl (400, ''Invalid address parameter'')))"

text \<open>
  \<open>handler\<close> of \<open>api/tokens/[address].ts\<close>, given the environment variable
  \<open>JUPITER_API_KEY\<close>: the response and the upstream requests sent.
\<close>

definition handler ::
  "runtime \<Rightarrow> upstream \<Rightarrow> string option \<Rightarrow> VercelRequest \<Rightarrow> VercelResponse \<times> request list" where
  "handler rt up JUPITER_API_KEY req =
     (let cors = setCorsHeaders req in
      if request_method req = Some ''OPTIONS''
      then (\<lparr> status = 204, headers = cors, body = Null_body \<rparr>, [])
      else if (case request_method req of None \<Rightarrow> True | Some m \<Rightarrow> m = [] \<or> m \<noteq> ''GET'')
      then (\<lparr> status = 405, headers = cors, body = Null_body \<rparr>, [])
      else
        (case validate_address rt (query_address req) of
           Inl (code, message) \<Rightarrow>
             (\<lparr> status = code, headers = cors, body = Error_body message \<rparr>, [])
         | Inr address \<Rightarrow>
             (case JUPITER_API_KEY of
                None \<Rightarrow>
                  (\<lparr> status = 500, headers = cors,
                      body = Error_body ''JUPITER_API_KEY is not configured'' \<rparr>, [])
              | Some jupiterApiKey \<Rightarrow>
                  if jupiterApiKey = []
                  then (\<lparr> status = 500, headers = cors,
                           body = Error_body ''JUPITER_API_KEY is not configured'' \<rparr>, [])
                  else
                    (case fetchTokens rt up address jupiterApiKey of
                       (Inr tokens, sent) \<Rightarrow>
                         (\<lparr> status = 200,
                             headers = cors @ [(''Cache-Control'', ''public, max-age=60'')],
                             body = Tokens_body tokens \<rparr>, sent)
                     | (Inl e, sent) \<Rightarrow>
                         (\<lparr> status = 500, headers = cors,
                             body = Error_body ''Failed to fetch tokens'' \<rparr>, sent)))))"

section \<open>Notions used to state the properties\<close>

text \<open>
  The values that \<open>mintsForBatch\<close> takes when the batch loop runs from index \<open>i\<close> to its
  end, and the search request of a batch.
\<close>

function batches_from :: "'a list \<Rightarrow> nat \<Rightarrow> 'a list list" where
  "batches_from xs i =
     (if i < length xs then slice xs i (i + 100) # batches_from xs (i + 100) else [])"
  by pat_completeness auto
termination
  by (relation "measure (\<lambda>(xs, i). length xs - i)") auto

declare batches_from.simps [simp del]

definition search_request_of :: "string \<Rightarrow> Address list \<Rightarrow> request" where
  "search_request_of jupiterApiKey batch = Search_request (join batch '','') jupiterApiKey"

text \<open>
  The sum of the raw amounts of a list of balance records, and what the collection loop
  adds to an identifier: the sums of its entries that are greater than zero.
\<close>

definition entry_sum :: "runtime \<Rightarrow> TokenAccount list \<Rightarrow> int" where
  "entry_sum rt tokens =
     sum_list (map (\<lambda>token. case BigInt_of_string rt (account_amount token) of
                              None \<Rightarrow> 0 | Some v \<Rightarrow> v) tokens)"

definition added :: "runtime \<Rightarrow> (Address \<times> TokenAccount list) list \<Rightarrow> Address \<Rightarrow> int" where
  "added rt entries k =
     sum_list (map (\<lambda>(mint, tokens).
                 if mint = k \<and> 0 < entry_sum rt tokens then entry_sum rt tokens else 0) entries)"

text \<open>The order in which keys enter an object: each key where it is first assigned.\<close>

fun insertion_order :: "'a list \<Rightarrow> 'a list \<Rightarrow> 'a list" where
  "insertion_order ks [] = ks"
| "insertion_order ks (k # rest) = insertion_order (if k \<in> set ks then ks else ks @ [k]) rest"

text \<open>
  A request of a run that the provider answered with a status that is not \<open>ok\<close>, and the
  bodies it gave to the search requests of a run (the first request of a run is the
  holdings request).
\<close>

fun not_ok :: "'a response \<Rightarrow> bool" where
  "not_ok (Status_not_ok statusText) = True"
| "not_ok _ = False"

definition answered_not_ok :: "upstream \<Rightarrow> request list \<Rightarrow> nat \<Rightarrow> bool" where
  "answered_not_ok up sent i =
     (case sent ! i of
        Holdings_request a k \<Rightarrow> not_ok (holdings_endpoint up (take i sent) (sent ! i))
      | Search_request q k \<Rightarrow> not_ok (search_endpoint up (take i sent) (sent ! i)))"

definition search_answers ::
  "upstream \<Rightarrow> request list \<Rightarrow> JupiterTokenSearchApiResponse list list" where
  "search_answers up sent =
     map (\<lambda>i. case search_endpoint up (take i sent) (sent ! i) of
                Success tokenDataBatch \<Rightarrow> tokenDataBatch | _ \<Rightarrow> [])
       [1..<length sent]"

text \<open>
  A runtime for evaluating examples: \<open>BigInt\<close> on strings of decimal digits, rounding that
  leaves a double as it is (it is used on doubles only), and the alphabet and length of
  an address.
\<close>

definition decimal_BigInt :: "string \<Rightarrow> int option" where
  "decimal_BigInt s =
     (if list_all (\<lambda>c. c \<in> set ''0123456789'') s
      then Some (foldl (\<lambda>n c. 10 * n + (int (of_char c) - 48)) 0 s)
      else None)"

definition base58_string :: "string \<Rightarrow> bool" where
  "base58_string s =
     (32 \<le> length s \<and> length s \<le> 44 \<and>
      list_all (\<lambda>c. c \<in> set ''123456789ABCDEFGHJKLMNPQRSTUVWXYZabcdefghijkmnopqrstuvwxyz'') s)"

definition sample_runtime :: runtime where
  "sample_runtime =
     \<lparr> BigInt_of_string = decimal_BigInt, round_to_double = Fin, isAddress = base58_string \<rparr>"

section \<open>Properties of one Token Record\<close>

lemma BigInt_of_number_Inr:
  "BigInt_of_number dec = Inr d \<Longrightarrow> dec = Fin (of_int d)"
  by (cases dec) (auto split: if_splits)

lemma BigInt_power_Inr: "BigInt_power a b = Inr p \<Longrightarrow> 0 \<le> b \<and> p = a ^ nat b"
  by (auto simp: BigInt_power_def split: if_splits)

lemma BigInt_divide_power_of_ten:
  "BigInt_divide b (10 ^ n) = Inr (sgn b * (\<bar>b\<bar> div 10 ^ n))"
  by (simp add: BigInt_divide_def)

lemma usdValue_of_Inr:
  assumes "usdValue_of rt b dec price = Inr v"
  shows "\<exists>d. dec = Fin (of_int d) \<and> 0 \<le> d \<and>
           v = number_times rt (Number_of_BigInt rt (sgn b * (\<bar>b\<bar> div 10 ^ nat d))) price"
proof -
  from assms obtain d where d: "BigInt_of_number dec = Inr d"
    by (auto simp: usdValue_of_def split: sum.splits)
  from assms d obtain p where p: "BigInt_power 10 d = Inr p"
    by (auto simp: usdValue_of_def split: sum.splits)
  from p have pd: "0 \<le> d" "p = 10 ^ nat d"
    by (auto dest: BigInt_power_Inr)
  from assms d p pd have "v = number_times rt (Number_of_BigInt rt (sgn b * (\<bar>b\<bar> div 10 ^ nat d))) price"
    by (simp add: usdValue_of_def BigInt_divide_power_of_ten)
  with d pd show ?thesis
    by (auto dest: BigInt_of_number_Inr)
qed

lemma toTokenData_fields:
  assumes "toTokenData rt m tok = Inr r"
  shows "mint r = token_id tok"
    and "amount r = balance_or_zero m (token_id tok)"
    and "name r = (if token_id tok = SOL_MINT then ''Solana'' else token_name tok)"
    and "symbol r = token_symbol tok"
    and "icon r = string_or_null (token_icon tok)"
    and "decimals r = token_decimals tok"
    and "usdPriceUnit r = number_or_null (token_usdPrice tok)"
    and "jupiterIsVerified r = bool_or_false (token_isVerified tok)"
    and "priceChange24hPercent r = number_or_null (stats24h_priceChange (token_stats24h tok))"
  using assms by (auto simp: toTokenData_def Let_def split: sum.splits)

lemma toTokenData_usdValue:
  assumes "toTokenData rt m tok = Inr r"
  shows "case number_or_null (token_usdPrice tok) of
           None \<Rightarrow> usdValue r = None
         | Some price \<Rightarrow> \<exists>v. usdValue_of rt (balance_or_zero m (token_id tok)) (token_decimals tok) price = Inr v \<and> usdValue r = Some v"
  using assms by (auto simp: toTokenData_def Let_def split: sum.splits option.splits)

lemma number_or_null_Some: "number_or_null x = Some p \<Longrightarrow> x = Some p \<and> truthy_number p"
  by (auto simp: number_or_null_def split: option.splits if_splits)

text \<open>
  Claim C1. Whenever a Token Record is built with a price (\<open>usdPriceUnit\<close> is not null),
  \<open>decimals\<close> is an integer \<open>d\<close> that is not negative and \<open>usdValue\<close> is
  \<open>Number(q) * usdPriceUnit\<close>, where \<open>q\<close> is the BigInt quotient of \<open>amount\<close> by
  \<open>10 ^ d\<close> rounded towards zero: the division is done on integers before the
  floating-point product. For an amount of 1500000, 6 decimals and a price of 2.0, on
  every runtime whose rounding leaves the doubles 1 and 2 as they are, the record is
  built and its \<open>usdValue\<close> is 2.0, not 3.0.
\<close>

theorem usdValue_divides_before_multiplying:
  "(toTokenData rt m tok = Inr r \<longrightarrow> usdPriceUnit r = Some p \<longrightarrow>
      token_usdPrice tok = Some p \<and>
      (\<exists>d. token_decimals tok = Fin (of_int d) \<and> 0 \<le> d \<and>
           usdValue r =
             Some (number_times rt
                     (Number_of_BigInt rt (sgn (amount r) * (\<bar>amount r\<bar> div 10 ^ nat d))) p)))
   \<and> (balance_or_zero m' (token_id tok') = 1500000 \<longrightarrow> token_decimals tok' = Fin 6 \<longrightarrow>
       token_usdPrice tok' = Some (Fin 2) \<longrightarrow>
       round_to_double rt' 1 = Fin 1 \<longrightarrow> round_to_double rt' 2 = Fin 2 \<longrightarrow>
       (\<exists>r'. toTokenData rt' m' tok' = Inr r' \<and> amount r' = 1500000 \<and>
             usdPriceUnit r' = Some (Fin 2) \<and>
             usdValue r' = Some (Fin 2) \<and> usdValue r' \<noteq> Some (Fin 3)))"
proof (intro conjI impI)
  assume r: "toTokenData rt m tok = Inr r" and p: "usdPriceUnit r = Some p"
  from r p have np: "number_or_null (token_usdPrice tok) = Some p"
    by (simp add: toTokenData_fields)
  then show "token_usdPrice tok = Some p"
    by (simp add: number_or_null_Some)
  from toTokenData_usdValue [OF r] np obtain v
    where v: "usdValue_of rt (balance_or_zero m (token_id tok)) (token_decimals tok) p = Inr v"
      and rv: "usdValue r = Some v"
    by auto
  from usdValue_of_Inr [OF v] rv toTokenData_fields(2) [OF r]
  show "\<exists>d. token_decimals tok = Fin (of_int d) \<and> 0 \<le> d \<and>
           usdValue r =
             Some (number_times rt
                     (Number_of_BigInt rt (sgn (amount r) * (\<bar>amount r\<bar> div 10 ^ nat d))) p)"
    by auto
next
  assume b: "balance_or_zero m' (token_id tok') = 1500000"
    and d: "token_decimals tok' = Fin 6"
    and u: "token_usdPrice tok' = Some (Fin 2)"
    and r1: "round_to_double rt' 1 = Fin 1" and r2: "round_to_double rt' 2 = Fin 2"
  have "BigInt_of_number (Fin 6) = Inr 6"
    by simp
  moreover have "BigInt_power 10 6 = Inr 1000000"
    by (simp add: BigInt_power_def)
  moreover have "BigInt_divide 1500000 1000000 = Inr 1"
    by (simp add: BigInt_divide_def)
  ultimately have "usdValue_of rt' 1500000 (Fin 6) (Fin 2) = Inr (Fin 2)"
    using r1 r2 by (simp add: usdValue_of_def Number_of_BigInt_def)
  with b d u show "\<exists>r'. toTokenData rt' m' tok' = Inr r' \<and> amount r' = 1500000 \<and>
             usdPriceUnit r' = Some (Fin 2) \<and>
             usdValue r' = Some (Fin 2) \<and> usdValue r' \<noteq> Some (Fin 3)"
    by (simp add: toTokenData_def number_or_null_def)
qed

theorem usdValue_divides_before_multiplying_witness:
  "toTokenData sample_runtime [(SOL_MINT, 0), (''MINT1'', 1500000)]
     \<lparr> token_id = ''MINT1'', token_name = ''Mint One'', token_symbol = ''M1'',
       token_decimals = Fin 6, token_icon = None, token_usdPrice = Some (Fin 2),
       token_isVerified = None, token_stats24h = None \<rparr>
   = Inr \<lparr> mint = ''MINT1'', amount = 1500000, name = ''Mint One'', symbol = ''M1'',
           icon = None, decimals = Fin 6, usdPriceUnit = Some (Fin 2),
           usdValue = Some (Fin 2), jupiterIsVerified = False,
           priceChange24hPercent = None \<rparr>
   \<and> sgn (1500000 :: int) * (\<bar>1500000\<bar> div 10 ^ nat 6) = 1
   \<and> number_times sample_runtime (Number_of_BigInt sample_runtime 1) (Fin 2) = Fin 2"
  using usdValue_divides_before_multiplying
    [of sample_runtime "[(SOL_MINT, 0), (''MINT1'', 1500000)]"
        "\<lparr> token_id = ''MINT1'', token_name = ''Mint One'', token_symbol = ''M1'',
           token_decimals = Fin 6, token_icon = None, token_usdPrice = Some (Fin 2),
           token_isVerified = None, token_stats24h = None \<rparr>"
        "\<lparr> mint = ''MINT1'', amount = 1500000, name = ''Mint One'', symbol = ''M1'',
           icon = None, decimals = Fin 6, usdPriceUnit = Some (Fin 2),
           usdValue = Some (Fin 2), jupiterIsVerified = False,
           priceChange24hPercent = None \<rparr>"
        "Fin 2"
        "[(SOL_MINT, 0), (''MINT1'', 1500000)]"
        "\<lparr> token_id = ''MINT1'', token_name = ''Mint One'', token_symbol = ''M1'',
           token_decimals = Fin 6, token_icon = None, token_usdPrice = Some (Fin 2),
           token_isVerified = None, token_stats24h = None \<rparr>"
        sample_runtime]
  by (simp add: sample_runtime_def balance_or_zero_def SOL_MINT_def Number_of_BigInt_def
      toTokenData_def usdValue_of_def BigInt_power_def BigInt_divide_def number_or_null_def
      string_or_null_def bool_or_false_def stats24h_priceChange_def)

text \<open>
  Claim C8. The native-asset mint is \<open>So11111111111111111111111111111111111111112\<close>. A
  Token Record built from a metadata record with this identifier has the name
  \<open>Solana\<close>, whatever name the search returned; a Token Record built from a metadata
  record with any other identifier has the name the search returned.
\<close>

theorem native_name_is_Solana:
  "SOL_MINT = ''So11111111111111111111111111111111111111112'' \<and>
   (toTokenData rt m tok = Inr r \<longrightarrow>
      (token_id tok = SOL_MINT \<longrightarrow> name r = ''Solana'') \<and>
      (token_id tok \<noteq> SOL_MINT \<longrightarrow> name r = token_name tok))"
  by (simp add: SOL_MINT_def toTokenData_fields)

theorem native_name_is_Solana_witness:
  "toTokenData sample_runtime [(SOL_MINT, 5000000000)]
     \<lparr> token_id = SOL_MINT, token_name = ''Wrapped SOL'', token_symbol = ''SOL'',
       token_decimals = Fin 9, token_icon = None, token_usdPrice = None,
       token_isVerified = Some True, token_stats24h = None \<rparr>
   = Inr \<lparr> mint = SOL_MINT, amount = 5000000000, name = ''Solana'', symbol = ''SOL'',
           icon = None, decimals = Fin 9, usdPriceUnit = None, usdValue = None,
           jupiterIsVerified = True, priceChange24hPercent = None \<rparr>
   \<and> name \<lparr> mint = SOL_MINT, amount = 5000000000, name = ''Solana'', symbol = ''SOL'',
           icon = None, decimals = Fin 9, usdPriceUnit = None, usdValue = None,
           jupiterIsVerified = True, priceChange24hPercent = None \<rparr> = ''Solana''"
  using native_name_is_Solana
    [of sample_runtime "[(SOL_MINT, 5000000000)]"
        "\<lparr> token_id = SOL_MINT, token_name = ''Wrapped SOL'', token_symbol = ''SOL'',
           token_decimals = Fin 9, token_icon = None, token_usdPrice = None,
           token_isVerified = Some True, token_stats24h = None \<rparr>"
        "\<lparr> mint = SOL_MINT, amount = 5000000000, name = ''Solana'', symbol = ''SOL'',
           icon = None, decimals = Fin 9, usdPriceUnit = None, usdValue = None,
           jupiterIsVerified = True, priceChange24hPercent = None \<rparr>"]
  by (simp add: balance_or_zero_def toTokenData_def number_or_null_def
      string_or_null_def bool_or_false_def stats24h_priceChange_def)

text \<open>
  Claim C9. Optional metadata fields are mapped by truthiness. A metadata record whose
  \<open>usdPrice\<close> is 0 always gives a Token Record, and its \<open>usdPriceUnit\<close> and \<open>usdValue\<close>
  are null. In every Token Record that is built, a \<open>stats24h.priceChange\<close> of 0 gives a
  null \<open>priceChange24hPercent\<close>, an empty \<open>icon\<close> gives a null \<open>icon\<close>, and an
  \<open>isVerified\<close> that is false or omitted gives a false \<open>jupiterIsVerified\<close>.
\<close>

theorem optional_fields_by_truthiness:
  "(token_usdPrice tok = Some (Fin 0) \<longrightarrow>
      (\<exists>r. toTokenData rt m tok = Inr r \<and> usdPriceUnit r = None \<and> usdValue r = None)) \<and>
   (toTokenData rt m tok = Inr r \<longrightarrow>
      (token_usdPrice tok = Some (Fin 0) \<longrightarrow> usdPriceUnit r = None \<and> usdValue r = None) \<and>
      (token_stats24h tok = Some \<lparr> priceChange = Some (Fin 0) \<rparr> \<longrightarrow>
         priceChange24hPercent r = None) \<and>
      (token_icon tok = Some [] \<longrightarrow> icon r = None) \<and>
      (token_isVerified tok = Some False \<or> token_isVerified tok = None \<longrightarrow>
         jupiterIsVerified r = False))"
proof -
  have zero: "number_or_null (Some (Fin 0)) = None"
    by (simp add: number_or_null_def)
  have built: "\<exists>r. toTokenData rt m tok = Inr r \<and> usdPriceUnit r = None \<and> usdValue r = None"
    if "token_usdPrice tok = Some (Fin 0)"
    using that by (simp add: toTokenData_def zero)
  have price: "usdPriceUnit r = None \<and> usdValue r = None"
    if r: "toTokenData rt m tok = Inr r" and p: "token_usdPrice tok = Some (Fin 0)"
    using toTokenData_usdValue [OF r] toTokenData_fields(7) [OF r] p by (simp add: zero)
  have change: "priceChange24hPercent r = None"
    if "toTokenData rt m tok = Inr r"
      and "token_stats24h tok = Some \<lparr> priceChange = Some (Fin 0) \<rparr>"
    using that by (simp add: toTokenData_fields zero stats24h_priceChange_def)
  have empty_icon: "icon r = None"
    if "toTokenData rt m tok = Inr r" and "token_icon tok = Some []"
    using that by (simp add: toTokenData_fields string_or_null_def)
  have verified: "jupiterIsVerified r = False"
    if "toTokenData rt m tok = Inr r"
      and "token_isVerified tok = Some False \<or> token_isVerified tok = None"
    using that by (auto simp: toTokenData_fields bool_or_false_def)
  from built price change empty_icon verified show ?thesis
    by blast
qed

theorem optional_fields_by_truthiness_witness:
  "toTokenData sample_runtime [(SOL_MINT, 0), (''MINT1'', 300)]
     \<lparr> token_id = ''MINT1'', token_name = ''Mint One'', token_symbol = ''M1'',
       token_decimals = Fin 6, token_icon = Some [], token_usdPrice = Some (Fin 0),
       token_isVerified = Some False,
       token_stats24h = Some \<lparr> priceChange = Some (Fin 0) \<rparr> \<rparr>
   = Inr \<lparr> mint = ''MINT1'', amount = 300, name = ''Mint One'', symbol = ''M1'',
           icon = None, decimals = Fin 6, usdPriceUnit = None, usdValue = None,
           jupiterIsVerified = False, priceChange24hPercent = None \<rparr>"
  using optional_fields_by_truthiness
    [of "\<lparr> token_id = ''MINT1'', token_name = ''Mint One'', token_symbol = ''M1'',
           token_decimals = Fin 6, token_icon = Some [], token_usdPrice = Some (Fin 0),
           token_isVerified = Some False,
           token_stats24h = Some \<lparr> priceChange = Some (Fin 0) \<rparr> \<rparr>"
        sample_runtime "[(SOL_MINT, 0), (''MINT1'', 300)]"
        "\<lparr> mint = ''MINT1'', amount = 300, name = ''Mint One'', symbol = ''M1'',
           icon = None, decimals = Fin 6, usdPriceUnit = None, usdValue = None,
           jupiterIsVerified = False, priceChange24hPercent = None \<rparr>"]
  by (simp add: balance_or_zero_def toTokenData_def number_or_null_def SOL_MINT_def
      string_or_null_def bool_or_false_def stats24h_priceChange_def)

section \<open>Properties of balance collection\<close>

lemma sum_amounts_Inr:
  "sum_amounts rt tokens acc = Inr s \<Longrightarrow>
     s = acc + entry_sum rt tokens \<and>
     (\<forall>token \<in> set tokens. BigInt_of_string rt (account_amount token) \<noteq> None)"
proof (induction tokens arbitrary: acc)
  case Nil
  then show ?case by (simp add: entry_sum_def)
next
  case (Cons token tokens)
  then obtain v where v: "BigInt_of_string rt (account_amount token) = Some v"
    by (auto split: option.splits)
  with Cons.prems have "sum_amounts rt tokens (acc + v) = Inr s"
    by simp
  from Cons.IH [OF this] v show ?case
    by (simp add: entry_sum_def)
qed

lemma sum_amounts_total:
  "\<forall>token \<in> set tokens. BigInt_of_string rt (account_amount token) \<noteq> None \<Longrightarrow>
     \<exists>s. sum_amounts rt tokens acc = Inr s"
  by (induction tokens arbitrary: acc) auto

lemma map_of_assign: "map_of (assign m k v) = (map_of m)(k \<mapsto> v)"
  by (induction m) (auto simp: fun_eq_iff)

lemma Object_keys_assign:
  "Object_keys (assign m k v) =
     (if k \<in> set (Object_keys m) then Object_keys m else Object_keys m @ [k])"
  by (induction m) (force simp: Object_keys_def)+

lemma distinct_assign:
  "distinct (Object_keys m) \<Longrightarrow> distinct (Object_keys (assign m k v))"
  by (simp add: Object_keys_assign)

lemma balance_or_zero_eq:
  "balance_or_zero m k = (case map_of m k of None \<Rightarrow> 0 | Some v \<Rightarrow> v)"
  by (simp add: balance_or_zero_def split: option.splits)

lemma added_Nil: "added rt [] k = 0"
  by (simp add: added_def)

lemma added_Cons:
  "added rt ((mintAddress, tokens) # entries) k =
     (if mintAddress = k \<and> 0 < entry_sum rt tokens then entry_sum rt tokens else 0) + added rt entries k"
  by (simp add: added_def)

lemma added_nonneg: "0 \<le> added rt entries k"
  by (induction entries) (auto simp: added_Nil added_Cons)

lemma added_absent: "k \<notin> fst ` set entries \<Longrightarrow> added rt entries k = 0"
  by (induction entries) (auto simp: added_Nil added_Cons)

lemma added_distinct:
  "distinct (map fst entries) \<Longrightarrow> (k, tokens) \<in> set entries \<Longrightarrow>
     added rt entries k = (if 0 < entry_sum rt tokens then entry_sum rt tokens else 0)"
proof (induction entries)
  case Nil
  then show ?case by simp
next
  case (Cons e entries)
  obtain mintAddress ts where e: "e = (mintAddress, ts)"
    by (cases e)
  show ?case
  proof (cases "mintAddress = k")
    case True
    with Cons.prems e have "ts = tokens" "k \<notin> fst ` set entries"
      by (auto simp: image_iff)
    with True e show ?thesis
      by (simp add: added_Cons added_absent)
  next
    case False
    with Cons e show ?thesis
      by (auto simp: added_Cons)
  qed
qed

lemma add_holdings_map_of:
  "add_holdings rt entries m = Inr m' \<Longrightarrow>
     map_of m' k =
       (case map_of m k of
          None \<Rightarrow> if 0 < added rt entries k then Some (added rt entries k) else None
        | Some v \<Rightarrow> Some (v + added rt entries k))"
proof (induction entries arbitrary: m)
  case Nil
  then show ?case by (simp add: added_Nil split: option.splits)
next
  case (Cons e entries)
  obtain mintAddress tokens where e: "e = (mintAddress, tokens)"
    by (cases e)
  from Cons.prems e obtain s where s: "sum_amounts rt tokens 0 = Inr s"
    by (auto split: sum.splits)
  then have se: "s = entry_sum rt tokens"
    by (auto dest: sum_amounts_Inr)
  let ?m1 = "if 0 < s then assign m mintAddress (balance_or_zero m mintAddress + s) else m"
  from Cons.prems e s have "add_holdings rt entries ?m1 = Inr m'"
    by simp
  from Cons.IH [OF this] added_nonneg [of rt entries k] show ?case
    by (auto simp: e se added_Cons map_of_assign balance_or_zero_eq split: option.splits if_splits)
qed

lemma add_holdings_distinct:
  "add_holdings rt entries m = Inr m' \<Longrightarrow> distinct (Object_keys m) \<Longrightarrow>
     distinct (Object_keys m')"
proof (induction entries arbitrary: m)
  case Nil
  then show ?case by simp
next
  case (Cons e entries)
  obtain mintAddress tokens where e: "e = (mintAddress, tokens)"
    by (cases e)
  from Cons.prems e obtain s where s: "sum_amounts rt tokens 0 = Inr s"
    by (auto split: sum.splits)
  let ?m1 = "if 0 < s then assign m mintAddress (balance_or_zero m mintAddress + s) else m"
  from Cons.prems e s have "add_holdings rt entries ?m1 = Inr m'"
    by simp
  moreover from Cons.prems have "distinct (Object_keys ?m1)"
    by (simp add: distinct_assign)
  ultimately show ?case
    by (rule Cons.IH)
qed

lemma add_holdings_total:
  "\<forall>(mintAddress, tokens) \<in> set entries.
      \<forall>token \<in> set tokens. BigInt_of_string rt (account_amount token) \<noteq> None \<Longrightarrow>
     \<exists>m'. add_holdings rt entries m = Inr m'"
proof (induction entries arbitrary: m)
  case Nil
  then show ?case by simp
next
  case (Cons e entries)
  obtain mintAddress tokens where e: "e = (mintAddress, tokens)"
    by (cases e)
  with Cons.prems obtain s where s: "sum_amounts rt tokens 0 = Inr s"
    using sum_amounts_total [of tokens rt 0] by auto
  from Cons.prems have "\<forall>(mintAddress, tokens) \<in> set entries.
      \<forall>token \<in> set tokens. BigInt_of_string rt (account_amount token) \<noteq> None"
    by simp
  from Cons.IH [OF this] e s show ?case
    by simp
qed

lemma add_holdings_parsed:
  "add_holdings rt entries m = Inr m' \<Longrightarrow> (mintAddress, tokens) \<in> set entries \<Longrightarrow>
     token \<in> set tokens \<Longrightarrow> BigInt_of_string rt (account_amount token) \<noteq> None"
proof (induction entries arbitrary: m)
  case Nil
  then show ?case by simp
next
  case (Cons e entries)
  obtain mintAddress' tokens' where e: "e = (mintAddress', tokens')"
    by (cases e)
  from Cons.prems e obtain s where s: "sum_amounts rt tokens' 0 = Inr s"
    by (auto split: sum.splits)
  let ?m1 = "if 0 < s then assign m mintAddress' (balance_or_zero m mintAddress' + s) else m"
  from Cons.prems e s have rest: "add_holdings rt entries ?m1 = Inr m'"
    by simp
  show ?case
  proof (cases "(mintAddress, tokens) = e")
    case True
    with e s Cons.prems(3) show ?thesis
      by (auto dest: sum_amounts_Inr)
  next
    case False
    with Cons.prems have "(mintAddress, tokens) \<in> set entries"
      by simp
    from Cons.IH [OF rest this Cons.prems(3)] show ?thesis .
  qed
qed

lemma add_holdings_keys:
  "add_holdings rt entries m = Inr m' \<Longrightarrow>
     Object_keys m' =
       insertion_order (Object_keys m)
         (map fst (filter (\<lambda>(mintAddress, tokens). 0 < entry_sum rt tokens) entries))"
proof (induction entries arbitrary: m)
  case Nil
  then show ?case by simp
next
  case (Cons e entries)
  obtain mintAddress tokens where e: "e = (mintAddress, tokens)"
    by (cases e)
  from Cons.prems e obtain s where s: "sum_amounts rt tokens 0 = Inr s"
    by (auto split: sum.splits)
  then have se: "s = entry_sum rt tokens"
    by (auto dest: sum_amounts_Inr)
  let ?m1 = "if 0 < s then assign m mintAddress (balance_or_zero m mintAddress + s) else m"
  from Cons.prems e s have "add_holdings rt entries ?m1 = Inr m'"
    by simp
  from Cons.IH [OF this] show ?case
    by (simp add: e se Object_keys_assign)
qed

lemma map_of_in_distinct_keys:
  "distinct (Object_keys m) \<Longrightarrow> (k, v) \<in> set m \<Longrightarrow> map_of m k = Some v"
  by (simp add: Object_keys_def)

lemma collect_balances_Inr:
  assumes "collect_balances rt h = Inr m"
  obtains native where "BigInt_of_string rt (holdings_amount h) = Some native"
    and "add_holdings rt (holdings_tokens h) [(SOL_MINT, native)] = Inr m"
  using assms by (auto simp: collect_balances_def split: option.splits)

lemma collect_balances_native:
  assumes "collect_balances rt h = Inr m"
    and "BigInt_of_string rt (holdings_amount h) = Some native"
  shows "map_of m SOL_MINT = Some (native + added rt (holdings_tokens h) SOL_MINT)"
proof -
  from assms have "add_holdings rt (holdings_tokens h) [(SOL_MINT, native)] = Inr m"
    by (auto elim: collect_balances_Inr)
  from add_holdings_map_of [OF this, of SOL_MINT] show ?thesis
    by simp
qed

lemma collect_balances_other:
  assumes "collect_balances rt h = Inr m" and "k \<noteq> SOL_MINT"
  shows "map_of m k =
           (if 0 < added rt (holdings_tokens h) k
            then Some (added rt (holdings_tokens h) k) else None)"
proof -
  from assms(1) obtain native
    where "add_holdings rt (holdings_tokens h) [(SOL_MINT, native)] = Inr m"
    by (rule collect_balances_Inr)
  from add_holdings_map_of [OF this, of k] assms(2) show ?thesis
    by simp
qed

lemma collect_balances_distinct:
  assumes "collect_balances rt h = Inr m"
  shows "distinct (Object_keys m)"
proof -
  from assms obtain native
    where "add_holdings rt (holdings_tokens h) [(SOL_MINT, native)] = Inr m"
    by (rule collect_balances_Inr)
  then show ?thesis
    by (rule add_holdings_distinct) (simp add: Object_keys_def)
qed

lemma collect_balances_parsed:
  assumes "collect_balances rt h = Inr m"
    and "(k, tokens) \<in> set (holdings_tokens h)" and "token \<in> set tokens"
  shows "BigInt_of_string rt (account_amount token) \<noteq> None"
proof -
  from assms(1) obtain native
    where "add_holdings rt (holdings_tokens h) [(SOL_MINT, native)] = Inr m"
    by (rule collect_balances_Inr)
  from add_holdings_parsed [OF this assms(2,3)] show ?thesis .
qed

lemma collect_balances_total:
  assumes "BigInt_of_string rt (holdings_amount h) \<noteq> None"
    and "\<forall>(k, tokens) \<in> set (holdings_tokens h).
           \<forall>token \<in> set tokens. BigInt_of_string rt (account_amount token) \<noteq> None"
  shows "\<exists>m. collect_balances rt h = Inr m"
  using assms(1) add_holdings_total [OF assms(2)]
  by (auto simp: collect_balances_def)

lemma collect_balances_keys:
  assumes "collect_balances rt h = Inr m"
  shows "Object_keys m =
           insertion_order [SOL_MINT]
             (map fst (filter (\<lambda>(k, tokens). 0 < entry_sum rt tokens) (holdings_tokens h)))"
proof -
  from assms obtain native
    where "add_holdings rt (holdings_tokens h) [(SOL_MINT, native)] = Inr m"
    by (rule collect_balances_Inr)
  from add_holdings_keys [OF this] show ?thesis
    by (simp add: Object_keys_def)
qed

text \<open>
  Claim C2. When balance collection returns the balance object of a holdings response:
  the native identifier is a key whatever the top-level balance is (zero included), and
  its value is that balance plus what the loop added to the native identifier, so the
  top-level balance itself when the response has no entry for it; any other identifier
  is a key exactly when the loop added something to it, that is when an entry of it has
  a sum of raw amounts greater than zero, and its value is the total of those sums (the
  sum of its one entry, for the distinct keys of a response object); no key occurs twice
  and no other identifier has a value of zero or less. Collection returns whenever the
  amounts are strings that \<open>BigInt\<close> accepts.
\<close>

theorem balance_collection:
  "(collect_balances rt h = Inr m \<longrightarrow>
      (\<exists>native. BigInt_of_string rt (holdings_amount h) = Some native \<and>
         map_of m SOL_MINT = Some (native + added rt (holdings_tokens h) SOL_MINT) \<and>
         (SOL_MINT \<notin> fst ` set (holdings_tokens h) \<longrightarrow> map_of m SOL_MINT = Some native)) \<and>
      (\<forall>k. k \<noteq> SOL_MINT \<longrightarrow>
         map_of m k =
           (if 0 < added rt (holdings_tokens h) k
            then Some (added rt (holdings_tokens h) k) else None)) \<and>
      (distinct (map fst (holdings_tokens h)) \<longrightarrow>
         (\<forall>k tokens. (k, tokens) \<in> set (holdings_tokens h) \<longrightarrow> k \<noteq> SOL_MINT \<longrightarrow>
            map_of m k =
              (if 0 < entry_sum rt tokens then Some (entry_sum rt tokens) else None))) \<and>
      (\<forall>k tokens token. (k, tokens) \<in> set (holdings_tokens h) \<longrightarrow> token \<in> set tokens \<longrightarrow>
         BigInt_of_string rt (account_amount token) \<noteq> None) \<and>
      distinct (Object_keys m) \<and>
      (\<forall>k v. (k, v) \<in> set m \<longrightarrow> k \<noteq> SOL_MINT \<longrightarrow> 0 < v))
   \<and> (BigInt_of_string rt (holdings_amount h) \<noteq> None \<longrightarrow>
       (\<forall>(k, tokens) \<in> set (holdings_tokens h).
          \<forall>token \<in> set tokens. BigInt_of_string rt (account_amount token) \<noteq> None) \<longrightarrow>
       (\<exists>m'. collect_balances rt h = Inr m'))"
proof -
  have total: "\<exists>m'. collect_balances rt h = Inr m'"
    if "BigInt_of_string rt (holdings_amount h) \<noteq> None"
      and "\<forall>(k, tokens) \<in> set (holdings_tokens h).
             \<forall>token \<in> set tokens. BigInt_of_string rt (account_amount token) \<noteq> None"
    using that by (rule collect_balances_total)
  have collected: "(\<exists>native. BigInt_of_string rt (holdings_amount h) = Some native \<and>
         map_of m SOL_MINT = Some (native + added rt (holdings_tokens h) SOL_MINT) \<and>
         (SOL_MINT \<notin> fst ` set (holdings_tokens h) \<longrightarrow> map_of m SOL_MINT = Some native)) \<and>
      (\<forall>k. k \<noteq> SOL_MINT \<longrightarrow>
         map_of m k =
           (if 0 < added rt (holdings_tokens h) k
            then Some (added rt (holdings_tokens h) k) else None)) \<and>
      (distinct (map fst (holdings_tokens h)) \<longrightarrow>
         (\<forall>k tokens. (k, tokens) \<in> set (holdings_tokens h) \<longrightarrow> k \<noteq> SOL_MINT \<longrightarrow>
            map_of m k =
              (if 0 < entry_sum rt tokens then Some (entry_sum rt tokens) else None))) \<and>
      (\<forall>k tokens token. (k, tokens) \<in> set (holdings_tokens h) \<longrightarrow> token \<in> set tokens \<longrightarrow>
         BigInt_of_string rt (account_amount token) \<noteq> None) \<and>
      distinct (Object_keys m) \<and>
      (\<forall>k v. (k, v) \<in> set m \<longrightarrow> k \<noteq> SOL_MINT \<longrightarrow> 0 < v)"
    if c: "collect_balances rt h = Inr m"
  proof -
    from c obtain native where n: "BigInt_of_string rt (holdings_amount h) = Some native"
      by (rule collect_balances_Inr)
    have native: "map_of m SOL_MINT = Some (native + added rt (holdings_tokens h) SOL_MINT)"
      using c n by (rule collect_balances_native)
    have alone: "map_of m SOL_MINT = Some native"
      if "SOL_MINT \<notin> fst ` set (holdings_tokens h)"
      using native that by (simp add: added_absent)
    have other: "map_of m k =
           (if 0 < added rt (holdings_tokens h) k
            then Some (added rt (holdings_tokens h) k) else None)"
      if "k \<noteq> SOL_MINT" for k
      using c that by (rule collect_balances_other)
    have one_entry: "map_of m k =
              (if 0 < entry_sum rt tokens then Some (entry_sum rt tokens) else None)"
      if "distinct (map fst (holdings_tokens h))" "(k, tokens) \<in> set (holdings_tokens h)"
        "k \<noteq> SOL_MINT" for k tokens
      using other [OF that(3)] added_distinct [OF that(1,2), of rt] by simp
    have parsed: "BigInt_of_string rt (account_amount token) \<noteq> None"
      if "(k, tokens) \<in> set (holdings_tokens h)" "token \<in> set tokens" for k tokens token
      using c that by (rule collect_balances_parsed)
    have dist: "distinct (Object_keys m)"
      using c by (rule collect_balances_distinct)
    have positive: "0 < v" if "(k, v) \<in> set m" "k \<noteq> SOL_MINT" for k v
    proof -
      from dist that(1) have "map_of m k = Some v"
        by (rule map_of_in_distinct_keys)
      with other [OF that(2)] show ?thesis
        by (simp split: if_splits)
    qed
    from n native alone other one_entry parsed dist positive show ?thesis
      by blast
  qed
  from total collected show ?thesis
    by blast
qed

theorem balance_collection_witness:
  "collect_balances sample_runtime
     \<lparr> holdings_amount = ''0'',
       holdings_tokens =
         [(''MINT1'', [\<lparr> account_amount = ''100'' \<rparr>, \<lparr> account_amount = ''200'' \<rparr>]),
          (''MINT2'', [\<lparr> account_amount = ''0'' \<rparr>])] \<rparr>
   = Inr [(SOL_MINT, 0), (''MINT1'', 300)]
   \<and> map_of [(SOL_MINT, 0), (''MINT1'', 300)] SOL_MINT = Some 0
   \<and> map_of [(SOL_MINT, 0), (''MINT1'', 300)] ''MINT1'' = Some 300
   \<and> map_of [(SOL_MINT, 0), (''MINT1'', 300 :: int)] ''MINT2'' = None"
  using balance_collection
    [of sample_runtime
        "\<lparr> holdings_amount = ''0'',
           holdings_tokens =
             [(''MINT1'', [\<lparr> account_amount = ''100'' \<rparr>, \<lparr> account_amount = ''200'' \<rparr>]),
              (''MINT2'', [\<lparr> account_amount = ''0'' \<rparr>])] \<rparr>"
        "[(SOL_MINT, 0), (''MINT1'', 300)]"]
  by (simp add: collect_balances_def sample_runtime_def decimal_BigInt_def
      balance_or_zero_def SOL_MINT_def)

section \<open>Properties of the partition into batches\<close>

lemma length_slice: "length (slice xs a b) = min (b - a) (length xs - a)"
  by (simp add: slice_def)

lemma batches_from_concat: "concat (batches_from xs i) = drop i xs"
proof (induction xs i rule: batches_from.induct)
  case (1 xs i)
  show ?case
  proof (cases "i < length xs")
    case True
    have "take 100 (drop i xs) @ drop (i + 100) xs = drop i xs"
      using append_take_drop_id [of 100 "drop i xs"] by (simp add: add.commute)
    with True "1.IH" show ?thesis
      by (simp add: batches_from.simps [of xs i] slice_def)
  next
    case False
    then show ?thesis
      by (simp add: batches_from.simps [of xs i])
  qed
qed

lemma batch_count_step:
  assumes "i < (n::nat)"
  shows "Suc ((n - (i + 100) + 99) div 100) = (n - i + 99) div 100"
proof (cases "i + 100 \<le> n")
  case True
  define r where "r = n - (i + 100) + 99"
  with True have "n - i + 99 = r + 100"
    by simp
  then have "(n - i + 99) div 100 = (r + 100) div 100"
    by (rule arg_cong)
  also have "\<dots> = Suc (r div 100)"
    by simp
  finally show ?thesis
    by (simp add: r_def)
next
  case False
  with assms have "n - (i + 100) = 0" and "100 \<le> n - i + 99" and "n - i + 99 < 200"
    by simp_all
  then have "(n - i + 99) div 100 = 1"
    by (simp add: div_nat_eqI)
  with \<open>n - (i + 100) = 0\<close> show ?thesis
    by simp
qed

lemma batches_from_length: "length (batches_from xs i) = (length xs - i + 99) div 100"
proof (induction xs i rule: batches_from.induct)
  case (1 xs i)
  show ?case
  proof (cases "i < length xs")
    case True
    with "1.IH" have "length (batches_from xs i) = Suc ((length xs - (i + 100) + 99) div 100)"
      by (simp add: batches_from.simps [of xs i])
    also from True have "\<dots> = (length xs - i + 99) div 100"
      by (rule batch_count_step)
    finally show ?thesis .
  next
    case False
    then show ?thesis
      by (simp add: batches_from.simps [of xs i])
  qed
qed

lemma batches_from_nth:
  "j < length (batches_from xs i) \<Longrightarrow>
     batches_from xs i ! j = slice xs (i + 100 * j) (i + 100 * j + 100)"
proof (induction xs i arbitrary: j rule: batches_from.induct)
  case (1 xs i)
  show ?case
  proof (cases "i < length xs")
    case True
    show ?thesis
    proof (cases j)
      case 0
      with True show ?thesis
        by (simp add: batches_from.simps [of xs i])
    next
      case (Suc j')
      with True "1.prems" have "j' < length (batches_from xs (i + 100))"
        by (simp add: batches_from.simps [of xs i])
      from "1.IH" [OF True this]
      have "batches_from xs (i + 100) ! j' = slice xs (i + 100 + 100 * j') (i + 100 + 100 * j' + 100)" .
      moreover have "i + 100 + 100 * j' = i + 100 * Suc j'"
        by simp
      moreover from True Suc have "batches_from xs i ! j = batches_from xs (i + 100) ! j'"
        by (simp add: batches_from.simps [of xs i])
      ultimately show ?thesis
        by (simp only: Suc)
    qed
  next
    case False
    with "1.prems" show ?thesis
      by (simp add: batches_from.simps [of xs i])
  qed
qed

lemma batches_from_sizes:
  "b \<in> set (batches_from xs i) \<Longrightarrow> 0 < length b \<and> length b \<le> 100"
proof (induction xs i rule: batches_from.induct)
  case (1 xs i)
  show ?case
  proof (cases "i < length xs")
    case True
    with "1.prems" have "b = slice xs i (i + 100) \<or> b \<in> set (batches_from xs (i + 100))"
      by (simp add: batches_from.simps [of xs i])
    moreover from True have "0 < length (slice xs i (i + 100))"
      and "length (slice xs i (i + 100)) \<le> 100"
      by (simp_all add: length_slice)
    ultimately show ?thesis
      using True "1.IH" by auto
  next
    case False
    with "1.prems" show ?thesis
      by (simp add: batches_from.simps [of xs i])
  qed
qed

lemma batches_from_250:
  "length xs = 250 \<Longrightarrow> map length (batches_from xs 0) = [100, 100, 50]"
  by (simp add: batches_from.simps [of xs 0] batches_from.simps [of xs 100]
      batches_from.simps [of xs 200] batches_from.simps [of xs 300] length_slice)

lemma ceiling_div_100: "(n + 99) div 100 = nat \<lceil>real n / 100\<rceil>"
  by linarith

section \<open>Properties of the batch loop\<close>

lemma map_tokens_append:
  "map_tokens rt m (xs @ ys) =
     (case map_tokens rt m xs of
        Inl e \<Rightarrow> Inl e
      | Inr rs \<Rightarrow>
          (case map_tokens rt m ys of
             Inl e \<Rightarrow> Inl e
           | Inr rs' \<Rightarrow> Inr (rs @ rs')))"
  by (induction xs) (auto split: sum.splits)

lemma map_tokens_Inr_D:
  "map_tokens rt m tokens = Inr records \<Longrightarrow>
     list_all2 (\<lambda>token r. toTokenData rt m token = Inr r) tokens records"
proof (induction tokens arbitrary: records)
  case Nil
  then show ?case by simp
next
  case (Cons token tokens)
  from Cons.prems obtain r rs where "toTokenData rt m token = Inr r"
    and "map_tokens rt m tokens = Inr rs" and "records = r # rs"
    by (auto split: sum.splits)
  with Cons.IH show ?case
    by simp
qed

lemma map_tokens_Inr_I:
  "list_all2 (\<lambda>token r. toTokenData rt m token = Inr r) tokens records \<Longrightarrow>
     map_tokens rt m tokens = Inr records"
  by (induction tokens records rule: list_all2_induct) simp_all

lemma map_tokens_concat:
  "list_all2 (\<lambda>tokens records. map_tokens rt m tokens = Inr records) answers per_batch \<Longrightarrow>
     map_tokens rt m (concat answers) = Inr (concat per_batch)"
  by (induction answers per_batch rule: list_all2_induct) (simp_all add: map_tokens_append)

lemma search_batches_cases [consumes 1, case_names finished rejected not_ok thrown continued]:
  assumes run: "search_batches rt up key m mints i acc sent = (res, sent')"
    and "\<lbrakk>\<not> i < length mints; res = Inr acc; sent' = sent\<rbrakk> \<Longrightarrow> thesis"
    and "\<lbrakk>i < length mints;
          search_endpoint up sent (search_request_of key (slice mints i (i + 100))) = Rejected;
          res = Inl FetchRejected;
          sent' = sent @ [search_request_of key (slice mints i (i + 100))]\<rbrakk> \<Longrightarrow> thesis"
    and "\<And>statusText.
         \<lbrakk>i < length mints;
          search_endpoint up sent (search_request_of key (slice mints i (i + 100)))
            = Status_not_ok statusText;
          res = Inl (SearchError statusText);
          sent' = sent @ [search_request_of key (slice mints i (i + 100))]\<rbrakk> \<Longrightarrow> thesis"
    and "\<And>tokenDataBatch e.
         \<lbrakk>i < length mints;
          search_endpoint up sent (search_request_of key (slice mints i (i + 100)))
            = Success tokenDataBatch;
          map_tokens rt m tokenDataBatch = Inl e;
          res = Inl e;
          sent' = sent @ [search_request_of key (slice mints i (i + 100))]\<rbrakk> \<Longrightarrow> thesis"
    and "\<And>tokenDataBatch batch.
         \<lbrakk>i < length mints;
          search_endpoint up sent (search_request_of key (slice mints i (i + 100)))
            = Success tokenDataBatch;
          map_tokens rt m tokenDataBatch = Inr batch;
          search_batches rt up key m mints (i + 100) (acc @ batch)
            (sent @ [search_request_of key (slice mints i (i + 100))]) = (res, sent')\<rbrakk>
         \<Longrightarrow> thesis"
  shows thesis
proof (cases "i < length mints")
  case False
  with run have "res = Inr acc" and "sent' = sent"
    by (auto simp: search_batches.simps [of rt up key m mints i acc sent])
  with False assms(2) show ?thesis
    by blast
next
  case True
  let ?req = "search_request_of key (slice mints i (i + 100))"
  show ?thesis
  proof (cases "search_endpoint up sent ?req")
    case Rejected
    with True run have "res = Inl FetchRejected" and "sent' = sent @ [?req]"
      by (auto simp: search_batches.simps [of rt up key m mints i acc sent]
          search_request_of_def)
    with True Rejected assms(3) show ?thesis
      by blast
  next
    case (Status_not_ok statusText)
    with True run have "res = Inl (SearchError statusText)" and "sent' = sent @ [?req]"
      by (auto simp: search_batches.simps [of rt up key m mints i acc sent]
          search_request_of_def)
    with True Status_not_ok assms(4) show ?thesis
      by blast
  next
    case (Success tokenDataBatch)
    show ?thesis
    proof (cases "map_tokens rt m tokenDataBatch")
      case (Inl e)
      with True Success run have "res = Inl e" and "sent' = sent @ [?req]"
        by (auto simp: search_batches.simps [of rt up key m mints i acc sent]
            search_request_of_def)
      with True Success Inl assms(5) show ?thesis
        by blast
    next
      case (Inr batch)
      with True Success run
      have "search_batches rt up key m mints (i + 100) (acc @ batch) (sent @ [?req])
              = (res, sent')"
        by (simp add: search_batches.simps [of rt up key m mints i acc sent]
            search_request_of_def)
      with True Success Inr assms(6) show ?thesis
        by blast
    qed
  qed
qed

lemma search_batches_sent:
  "search_batches rt up key m mints i acc sent = (res, sent') \<Longrightarrow>
     \<exists>n \<le> length (batches_from mints i).
        sent' = sent @ map (search_request_of key) (take n (batches_from mints i)) \<and>
        (case res of Inr out \<Rightarrow> n = length (batches_from mints i) | Inl e \<Rightarrow> 0 < n)"
proof (induction "length mints - i" arbitrary: i acc sent rule: less_induct)
  case less
  let ?req = "search_request_of key (slice mints i (i + 100))"
  from less.prems show ?case
  proof (cases rule: search_batches_cases)
    case finished
    then show ?thesis
      by (simp add: batches_from.simps [of mints i])
  next
    case rejected
    then have "sent' = sent @ map (search_request_of key) (take 1 (batches_from mints i))"
      by (simp add: batches_from.simps [of mints i])
    with rejected show ?thesis
      by (intro exI [of _ 1]) (simp add: batches_from.simps [of mints i])
  next
    case (not_ok statusText)
    then have "sent' = sent @ map (search_request_of key) (take 1 (batches_from mints i))"
      by (simp add: batches_from.simps [of mints i])
    with not_ok show ?thesis
      by (intro exI [of _ 1]) (simp add: batches_from.simps [of mints i])
  next
    case (thrown tokenDataBatch e)
    then have "sent' = sent @ map (search_request_of key) (take 1 (batches_from mints i))"
      by (simp add: batches_from.simps [of mints i])
    with thrown show ?thesis
      by (intro exI [of _ 1]) (simp add: batches_from.simps [of mints i])
  next
    case (continued tokenDataBatch batch)
    from continued(1) have "length mints - (i + 100) < length mints - i"
      by simp
    from less.hyps [OF this continued(4)] obtain n
      where n: "n \<le> length (batches_from mints (i + 100))"
        and s: "sent' = (sent @ [?req]) @
                  map (search_request_of key) (take n (batches_from mints (i + 100)))"
        and r: "case res of Inr out \<Rightarrow> n = length (batches_from mints (i + 100))
                | Inl e \<Rightarrow> 0 < n"
      by blast
    from continued(1) have b: "batches_from mints i = slice mints i (i + 100) # batches_from mints (i + 100)"
      by (simp add: batches_from.simps [of mints i])
    from n s r show ?thesis
      by (intro exI [of _ "Suc n"]) (auto simp: b split: sum.splits)
  qed
qed

lemma search_batches_extends:
  assumes "search_batches rt up key m mints i acc sent = (res, sent')"
  obtains ext where "sent' = sent @ ext"
  using search_batches_sent [OF assms] by blast

lemma search_batches_answers:
  "search_batches rt up key m mints i acc sent = (Inr out, sent') \<Longrightarrow>
     \<exists>per_batch. out = acc @ concat per_batch \<and>
        list_all2
          (\<lambda>j records. \<exists>tokenDataBatch.
              search_endpoint up (take j sent') (sent' ! j) = Success tokenDataBatch \<and>
              map_tokens rt m tokenDataBatch = Inr records)
          [length sent..<length sent'] per_batch"
proof (induction "length mints - i" arbitrary: i acc sent rule: less_induct)
  case less
  let ?req = "search_request_of key (slice mints i (i + 100))"
  from less.prems show ?case
  proof (cases rule: search_batches_cases)
    case finished
    then show ?thesis
      by simp
  next
    case (continued tokenDataBatch batch)
    from continued(1) have "length mints - (i + 100) < length mints - i"
      by simp
    from less.hyps [OF this continued(4)] obtain per_batch
      where out: "out = (acc @ batch) @ concat per_batch"
        and rest: "list_all2
          (\<lambda>j records. \<exists>tokenDataBatch.
              search_endpoint up (take j sent') (sent' ! j) = Success tokenDataBatch \<and>
              map_tokens rt m tokenDataBatch = Inr records)
          [length (sent @ [?req])..<length sent'] per_batch"
      by blast
    from continued(4) obtain ext where ext: "sent' = (sent @ [?req]) @ ext"
      by (rule search_batches_extends)
    then have here: "take (length sent) sent' = sent" "sent' ! length sent = ?req"
      and more: "length sent < length sent'"
      by (simp_all add: nth_append)
    from more have "[length sent..<length sent'] = length sent # [Suc (length sent)..<length sent']"
      by (rule upt_conv_Cons)
    with rest here continued(2,3) out show ?thesis
      by (intro exI [of _ "batch # per_batch"]) simp
  qed simp_all
qed

lemma search_batches_not_ok:
  "search_batches rt up key m mints i acc sent = (res, sent') \<Longrightarrow>
     length sent \<le> j \<Longrightarrow> j < length sent' \<Longrightarrow>
     search_endpoint up (take j sent') (sent' ! j) = Status_not_ok statusText \<Longrightarrow>
     res = Inl (SearchError statusText) \<and> Suc j = length sent'"
proof (induction "length mints - i" arbitrary: i acc sent rule: less_induct)
  case less
  let ?req = "search_request_of key (slice mints i (i + 100))"
  note j = less.prems(2,3) and answer = less.prems(4)
  from less.prems(1) show ?case
  proof (cases rule: search_batches_cases)
    case finished
    with j show ?thesis
      by simp
  next
    case rejected
    with j have "j = length sent"
      by simp
    with rejected answer show ?thesis
      by simp
  next
    case (not_ok statusText')
    with j have "j = length sent"
      by simp
    with not_ok answer show ?thesis
      by simp
  next
    case (thrown tokenDataBatch e)
    with j have "j = length sent"
      by simp
    with thrown answer show ?thesis
      by simp
  next
    case (continued tokenDataBatch batch)
    from continued(4) obtain ext where ext: "sent' = (sent @ [?req]) @ ext"
      by (rule search_batches_extends)
    then have here: "take (length sent) sent' = sent" "sent' ! length sent = ?req"
      by (simp_all add: nth_append)
    with continued(2) answer have "j \<noteq> length sent"
      by auto
    with j have "length (sent @ [?req]) \<le> j"
      by simp
    moreover from continued(1) have "length mints - (i + 100) < length mints - i"
      by simp
    ultimately show ?thesis
      using less.hyps continued(4) j(2) answer by blast
  qed
qed

lemma fetchTokens_cases [consumes 1, case_names rejected not_ok thrown searched]:
  assumes run: "fetchTokens rt up address key = (res, sent)"
    and "\<lbrakk>holdings_endpoint up [] (Holdings_request address key) = Rejected;
          res = Inl FetchRejected; sent = [Holdings_request address key]\<rbrakk> \<Longrightarrow> thesis"
    and "\<And>statusText.
         \<lbrakk>holdings_endpoint up [] (Holdings_request address key) = Status_not_ok statusText;
          res = Inl (HoldingsError statusText); sent = [Holdings_request address key]\<rbrakk>
         \<Longrightarrow> thesis"
    and "\<And>holdingsData e.
         \<lbrakk>holdings_endpoint up [] (Holdings_request address key) = Success holdingsData;
          collect_balances rt holdingsData = Inl e;
          res = Inl e; sent = [Holdings_request address key]\<rbrakk> \<Longrightarrow> thesis"
    and "\<And>holdingsData m.
         \<lbrakk>holdings_endpoint up [] (Holdings_request address key) = Success holdingsData;
          collect_balances rt holdingsData = Inr m;
          search_batches rt up key m (Object_keys m) 0 [] [Holdings_request address key]
            = (res, sent)\<rbrakk> \<Longrightarrow> thesis"
  shows thesis
proof (cases "holdings_endpoint up [] (Holdings_request address key)")
  case Rejected
  with run have "res = Inl FetchRejected" and "sent = [Holdings_request address key]"
    by (auto simp: fetchTokens_def)
  with Rejected assms(2) show ?thesis
    by blast
next
  case (Status_not_ok statusText)
  with run have "res = Inl (HoldingsError statusText)"
    and "sent = [Holdings_request address key]"
    by (auto simp: fetchTokens_def)
  with Status_not_ok assms(3) show ?thesis
    by blast
next
  case (Success holdingsData)
  show ?thesis
  proof (cases "collect_balances rt holdingsData")
    case (Inl e)
    with Success run have "res = Inl e" and "sent = [Holdings_request address key]"
      by (auto simp: fetchTokens_def)
    with Success Inl assms(4) show ?thesis
      by blast
  next
    case (Inr m)
    with Success run
    have "search_batches rt up key m (Object_keys m) 0 [] [Holdings_request address key]
            = (res, sent)"
      by (simp add: fetchTokens_def)
    with Success Inr assms(5) show ?thesis
      by blast
  qed
qed

section \<open>Properties of the aggregation\<close>

lemma list_all2_partner:
  "list_all2 P xs ys \<Longrightarrow> x \<in> set xs \<Longrightarrow> \<exists>y. P x y"
  by (induction xs ys rule: list_all2_induct) auto

lemma fetchTokens_Inr:
  assumes run: "fetchTokens rt up address key = (Inr out, sent)"
  obtains holdingsData m per_batch
  where "holdings_endpoint up [] (Holdings_request address key) = Success holdingsData"
    and "collect_balances rt holdingsData = Inr m"
    and "sent = Holdings_request address key #
                  map (search_request_of key) (batches_from (Object_keys m) 0)"
    and "out = concat per_batch"
    and "list_all2 (\<lambda>answer records. map_tokens rt m answer = Inr records)
           (search_answers up sent) per_batch"
    and "\<forall>j. 1 \<le> j \<and> j < length sent \<longrightarrow>
           (\<exists>tokenDataBatch.
              search_endpoint up (take j sent) (sent ! j) = Success tokenDataBatch)"
  using run
proof (cases rule: fetchTokens_cases)
  case (searched holdingsData m)
  let ?P = "\<lambda>j records. \<exists>tokenDataBatch.
              search_endpoint up (take j sent) (sent ! j) = Success tokenDataBatch \<and>
              map_tokens rt m tokenDataBatch = Inr records"
  from search_batches_sent [OF searched(3)]
  have sent: "sent = Holdings_request address key #
                  map (search_request_of key) (batches_from (Object_keys m) 0)"
    by auto
  from search_batches_answers [OF searched(3)] obtain per_batch
    where out: "out = concat per_batch"
      and all: "list_all2 ?P [1..<length sent] per_batch"
    by auto
  from all have "list_all2 (\<lambda>j records.
        map_tokens rt m (case search_endpoint up (take j sent) (sent ! j) of
                           Success tokenDataBatch \<Rightarrow> tokenDataBatch | _ \<Rightarrow> []) = Inr records)
      [1..<length sent] per_batch"
    by (rule list_all2_mono) auto
  then have answers: "list_all2 (\<lambda>answer records. map_tokens rt m answer = Inr records)
           (search_answers up sent) per_batch"
    by (simp add: search_answers_def list_all2_map1)
  have "\<exists>tokenDataBatch.
          search_endpoint up (take j sent) (sent ! j) = Success tokenDataBatch"
    if "1 \<le> j \<and> j < length sent" for j
  proof -
    from that have "j \<in> set [1..<length sent]"
      by simp
    from list_all2_partner [OF all this] show ?thesis
      by blast
  qed
  with searched(1,2) sent out answers that show ?thesis
    by blast
qed simp_all

lemma toTokenData_concat:
  "list_all2 (\<lambda>answer records. map_tokens rt m answer = Inr records) answers per_batch \<Longrightarrow>
     list_all2 (\<lambda>token r. toTokenData rt m token = Inr r) (concat answers) (concat per_batch)"
  by (rule map_tokens_Inr_D) (rule map_tokens_concat)

lemma fetchTokens_sent:
  assumes "fetchTokens rt up address key = (res, sent)"
    and "holdings_endpoint up [] (Holdings_request address key) = Success holdingsData"
    and "collect_balances rt holdingsData = Inr m"
  shows "\<exists>n \<le> length (batches_from (Object_keys m) 0).
           sent = Holdings_request address key #
                    map (search_request_of key) (take n (batches_from (Object_keys m) 0)) \<and>
           (case res of
              Inr out \<Rightarrow> n = length (batches_from (Object_keys m) 0)
            | Inl e \<Rightarrow> 0 < n)"
  using assms(1)
proof (cases rule: fetchTokens_cases)
  case (searched holdingsData' m')
  with assms(2,3) have "search_batches rt up key m (Object_keys m) 0 []
      [Holdings_request address key] = (res, sent)"
    by simp
  from search_batches_sent [OF this] show ?thesis
    by simp
qed (use assms(2,3) in simp_all)

text \<open>
  Claim C3. Once the balance object is collected, the requests of the metadata stage are
  search requests for the batches of its identifier list, in order, one for each batch,
  the parameter \<open>query\<close> of each being the identifiers of the batch joined by commas: for
  all the batches when the aggregation returns the token list, and up to the batch
  whose request fails otherwise. The batches are the slices of 100 identifiers from the
  indices 0, 100, 200 and so on: they are consecutive (joined together they give the
  identifier list), none is empty or longer than 100, and for \<open>n\<close> identifiers there
  are \<open>\<lceil>n / 100\<rceil>\<close> of them; for 250 identifiers there are three, of 100, 100 and 50
  identifiers in this order.
\<close>

theorem search_requests_are_the_batches:
  assumes "fetchTokens rt up address key = (res, sent)"
    and "holdings_endpoint up [] (Holdings_request address key) = Success holdingsData"
    and "collect_balances rt holdingsData = Inr m"
  shows "(\<forall>out. res = Inr out \<longrightarrow>
            sent = Holdings_request address key #
                     map (\<lambda>batch. Search_request (join batch '','') key)
                       (batches_from (Object_keys m) 0)) \<and>
         (\<exists>n \<le> length (batches_from (Object_keys m) 0).
            sent = Holdings_request address key #
                     map (\<lambda>batch. Search_request (join batch '','') key)
                       (take n (batches_from (Object_keys m) 0))) \<and>
         length (batches_from (Object_keys m) 0) = nat \<lceil>real (length (Object_keys m)) / 100\<rceil> \<and>
         concat (batches_from (Object_keys m) 0) = Object_keys m \<and>
         (\<forall>batch \<in> set (batches_from (Object_keys m) 0). 0 < length batch \<and> length batch \<le> 100) \<and>
         (\<forall>j < length (batches_from (Object_keys m) 0).
            batches_from (Object_keys m) 0 ! j
              = slice (Object_keys m) (100 * j) (100 * j + 100)) \<and>
         (length (Object_keys m) = 250 \<longrightarrow>
            map length (batches_from (Object_keys m) 0) = [100, 100, 50])"
proof -
  let ?batches = "batches_from (Object_keys m) 0"
  from fetchTokens_sent [OF assms] obtain n
    where n: "n \<le> length ?batches"
      and sent: "sent = Holdings_request address key #
                   map (search_request_of key) (take n ?batches)"
      and all: "case res of Inr out \<Rightarrow> n = length ?batches | Inl e \<Rightarrow> 0 < n"
    by blast
  from sent have prefix: "sent = Holdings_request address key #
                   map (\<lambda>batch. Search_request (join batch '','') key) (take n ?batches)"
    by (simp add: search_request_of_def [abs_def])
  have requests: "sent = Holdings_request address key #
                   map (\<lambda>batch. Search_request (join batch '','') key) ?batches"
    if "res = Inr out" for out
    using prefix all that by simp
  have count: "length ?batches = nat \<lceil>real (length (Object_keys m)) / 100\<rceil>"
    by (simp add: batches_from_length ceiling_div_100)
  have consecutive: "concat ?batches = Object_keys m"
    by (simp add: batches_from_concat)
  have sizes: "\<forall>batch \<in> set ?batches. 0 < length batch \<and> length batch \<le> 100"
    using batches_from_sizes by blast
  have slices: "\<forall>j < length ?batches.
            ?batches ! j = slice (Object_keys m) (100 * j) (100 * j + 100)"
    by (simp add: batches_from_nth)
  have example: "length (Object_keys m) = 250 \<longrightarrow> map length ?batches = [100, 100, 50]"
    by (simp add: batches_from_250)
  from requests n prefix count consecutive sizes slices example show ?thesis
    by blast
qed

theorem search_requests_are_the_batches_witness:
  "fetchTokens sample_runtime
     \<lparr> holdings_endpoint = \<lambda>sent req. Success
         \<lparr> holdings_amount = ''5000000000'',
           holdings_tokens =
             map (\<lambda>k. (k, [\<lparr> account_amount = ''1'' \<rparr>]))
               (take 249 [[a, b]. a \<leftarrow> ''ABCDEFGHJKLMNPQR'', b \<leftarrow> ''ABCDEFGHJKLMNPQR'']) \<rparr>,
       search_endpoint = \<lambda>sent req. Success [] \<rparr>
     SOL_MINT ''key''
   = (Inr [],
      [Holdings_request SOL_MINT ''key'',
       Search_request
         (join (take 100 (SOL_MINT #
            take 249 [[a, b]. a \<leftarrow> ''ABCDEFGHJKLMNPQR'', b \<leftarrow> ''ABCDEFGHJKLMNPQR''])) '','')
         ''key'',
       Search_request
         (join (take 100 (drop 100 (SOL_MINT #
            take 249 [[a, b]. a \<leftarrow> ''ABCDEFGHJKLMNPQR'', b \<leftarrow> ''ABCDEFGHJKLMNPQR'']))) '','')
         ''key'',
       Search_request
         (join (drop 200 (SOL_MINT #
            take 249 [[a, b]. a \<leftarrow> ''ABCDEFGHJKLMNPQR'', b \<leftarrow> ''ABCDEFGHJKLMNPQR''])) '','')
         ''key''])
   \<and> collect_balances sample_runtime
         \<lparr> holdings_amount = ''5000000000'',
           holdings_tokens =
             map (\<lambda>k. (k, [\<lparr> account_amount = ''1'' \<rparr>]))
               (take 249 [[a, b]. a \<leftarrow> ''ABCDEFGHJKLMNPQR'', b \<leftarrow> ''ABCDEFGHJKLMNPQR'']) \<rparr>
       = Inr ((SOL_MINT, 5000000000) #
              map (\<lambda>k. (k, 1))
                (take 249 [[a, b]. a \<leftarrow> ''ABCDEFGHJKLMNPQR'', b \<leftarrow> ''ABCDEFGHJKLMNPQR'']))
   \<and> length (Object_keys ((SOL_MINT, 5000000000) #
              map (\<lambda>k. (k, 1))
                (take 249 [[a, b]. a \<leftarrow> ''ABCDEFGHJKLMNPQR'', b \<leftarrow> ''ABCDEFGHJKLMNPQR'']))) = 250
   \<and> map length (batches_from (Object_keys ((SOL_MINT, 5000000000) #
              map (\<lambda>k. (k, 1))
                (take 249 [[a, b]. a \<leftarrow> ''ABCDEFGHJKLMNPQR'', b \<leftarrow> ''ABCDEFGHJKLMNPQR'']))) 0)
       = [100, 100, 50]"
  (is "fetchTokens sample_runtime ?up SOL_MINT ''key'' = (Inr [], ?sent) \<and>
       collect_balances sample_runtime ?h = Inr ?m \<and> ?n \<and> ?sizes")
proof -
  have answer: "holdings_endpoint ?up [] (Holdings_request SOL_MINT ''key'') = Success ?h"
    by simp
  have collected: "collect_balances sample_runtime ?h = Inr ?m"
    by code_simp
  have "search_batches sample_runtime ?up ''key'' ?m (Object_keys ?m) 0 []
          [Holdings_request SOL_MINT ''key''] = (Inr [], ?sent)"
    by code_simp
  with answer collected
  have run: "fetchTokens sample_runtime ?up SOL_MINT ''key'' = (Inr [], ?sent)"
    by (simp only: fetchTokens_def Let_def response.case sum.case)
  have n: ?n
    by code_simp
  from search_requests_are_the_batches [OF run answer collected] run collected n
  show ?thesis
    by blast
qed

lemma not_ok_D: "not_ok r \<Longrightarrow> \<exists>statusText. r = Status_not_ok statusText"
  by (cases r) simp_all

lemma fetchTokens_not_ok:
  assumes run: "fetchTokens rt up address key = (res, sent)"
    and j: "j < length sent" and failed: "answered_not_ok up sent j"
  shows "(\<exists>statusText.
            if j = 0
            then holdings_endpoint up [] (sent ! j) = Status_not_ok statusText \<and>
                 res = Inl (HoldingsError statusText)
            else search_endpoint up (take j sent) (sent ! j) = Status_not_ok statusText \<and>
                 res = Inl (SearchError statusText)) \<and>
         Suc j = length sent"
  using run
proof (cases rule: fetchTokens_cases)
  case rejected
  with j failed show ?thesis
    by (simp add: answered_not_ok_def)
next
  case (not_ok statusText)
  with j failed show ?thesis
    by (simp add: answered_not_ok_def)
next
  case (thrown holdingsData e)
  with j failed show ?thesis
    by (simp add: answered_not_ok_def)
next
  case (searched holdingsData m)
  from search_batches_sent [OF searched(3)] obtain n
    where sent: "sent = Holdings_request address key #
                   map (search_request_of key) (take n (batches_from (Object_keys m) 0))"
    by auto
  show ?thesis
  proof (cases j)
    case 0
    with sent searched(1) failed show ?thesis
      by (simp add: answered_not_ok_def)
  next
    case (Suc j')
    with sent j have "sent ! j = search_request_of key (take n (batches_from (Object_keys m) 0) ! j')"
      by simp
    with failed have "not_ok (search_endpoint up (take j sent) (sent ! j))"
      by (simp add: answered_not_ok_def search_request_of_def)
    then obtain statusText
      where answer: "search_endpoint up (take j sent) (sent ! j) = Status_not_ok statusText"
      by (auto dest: not_ok_D)
    with search_batches_not_ok [OF searched(3), of j statusText] j Suc
    have "res = Inl (SearchError statusText)" and "Suc j = length sent"
      by simp_all
    with answer Suc show ?thesis
      by auto
  qed
qed

lemma handler_fetch_failed:
  assumes "request_method req = Some ''GET''"
    and "validate_address rt (query_address req) = Inr address"
    and "key \<noteq> []"
    and "fetchTokens rt up address key = (Inl e, sent)"
  shows "handler rt up (Some key) req =
           (\<lparr> status = 500, headers = setCorsHeaders req,
               body = Error_body ''Failed to fetch tokens'' \<rparr>, sent)"
  using assms by (simp add: handler_def)

text \<open>
  Claim C4. If the provider answers any request of a run of the aggregation, the
  holdings request or a search request, with a status that is not \<open>ok\<close>, then the
  aggregation fails with the error that carries the status text of this answer
  (\<open>Error fetching token holdings\<close> for the holdings request, \<open>Error fetching token
  data\<close> for a search request), and this request is the last one sent: it is not sent
  again and no later batch is asked for. The handler then answers a valid request with
  the status 500 and the message \<open>Failed to fetch tokens\<close>, with no token list,
  whatever the earlier batches returned.
\<close>

theorem upstream_failure_aborts:
  assumes "fetchTokens rt up address key = (res, sent)"
    and "j < length sent" and "answered_not_ok up sent j"
  shows "(\<exists>statusText.
            if j = 0
            then holdings_endpoint up [] (sent ! j) = Status_not_ok statusText \<and>
                 res = Inl (HoldingsError statusText)
            else search_endpoint up (take j sent) (sent ! j) = Status_not_ok statusText \<and>
                 res = Inl (SearchError statusText)) \<and>
         Suc j = length sent \<and>
         (request_method req = Some ''GET'' \<longrightarrow>
          validate_address rt (query_address req) = Inr address \<longrightarrow> key \<noteq> [] \<longrightarrow>
            handler rt up (Some key) req =
              (\<lparr> status = 500, headers = setCorsHeaders req,
                  body = Error_body ''Failed to fetch tokens'' \<rparr>, sent))"
proof -
  from fetchTokens_not_ok [OF assms]
  have carried: "\<exists>statusText.
            if j = 0
            then holdings_endpoint up [] (sent ! j) = Status_not_ok statusText \<and>
                 res = Inl (HoldingsError statusText)
            else search_endpoint up (take j sent) (sent ! j) = Status_not_ok statusText \<and>
                 res = Inl (SearchError statusText)"
    and last: "Suc j = length sent"
    by simp_all
  from carried obtain e where "res = Inl e"
    by (auto split: if_splits)
  with assms(1) have "fetchTokens rt up address key = (Inl e, sent)"
    by simp
  from handler_fetch_failed [OF _ _ _ this, of req] carried last show ?thesis
    by blast
qed

theorem upstream_failure_aborts_witness:
  "fetchTokens sample_runtime
     \<lparr> holdings_endpoint = \<lambda>sent req. Success
         \<lparr> holdings_amount = ''5000000000'',
           holdings_tokens =
             map (\<lambda>k. (k, [\<lparr> account_amount = ''1'' \<rparr>]))
               [[a, b]. a \<leftarrow> ''ABCDEFGHJK'', b \<leftarrow> ''ABCDEFGHJK''] \<rparr>,
       search_endpoint = \<lambda>sent req.
         if length sent = 1
         then Success
           [\<lparr> token_id = SOL_MINT, token_name = ''Wrapped SOL'', token_symbol = ''SOL'',
              token_decimals = Fin 9, token_icon = None, token_usdPrice = None,
              token_isVerified = Some True, token_stats24h = None \<rparr>]
         else Status_not_ok ''Too Many Requests'' \<rparr>
     SOL_MINT ''key''
   = (Inl (SearchError ''Too Many Requests''),
      [Holdings_request SOL_MINT ''key'',
       Search_request
         (join (take 100 (SOL_MINT # [[a, b]. a \<leftarrow> ''ABCDEFGHJK'', b \<leftarrow> ''ABCDEFGHJK''])) '','')
         ''key'',
       Search_request ''KK'' ''key''])
   \<and> handler sample_runtime
     \<lparr> holdings_endpoint = \<lambda>sent req. Success
         \<lparr> holdings_amount = ''5000000000'',
           holdings_tokens =
             map (\<lambda>k. (k, [\<lparr> account_amount = ''1'' \<rparr>]))
               [[a, b]. a \<leftarrow> ''ABCDEFGHJK'', b \<leftarrow> ''ABCDEFGHJK''] \<rparr>,
       search_endpoint = \<lambda>sent req.
         if length sent = 1
         then Success
           [\<lparr> token_id = SOL_MINT, token_name = ''Wrapped SOL'', token_symbol = ''SOL'',
              token_decimals = Fin 9, token_icon = None, token_usdPrice = None,
              token_isVerified = Some True, token_stats24h = None \<rparr>]
         else Status_not_ok ''Too Many Requests'' \<rparr>
     (Some ''key'')
     \<lparr> request_method = Some ''GET'', request_origin = None,
       query_address = Single SOL_MINT \<rparr>
   = (\<lparr> status = 500, headers = [], body = Error_body ''Failed to fetch tokens'' \<rparr>,
      [Holdings_request SOL_MINT ''key'',
       Search_request
         (join (take 100 (SOL_MINT # [[a, b]. a \<leftarrow> ''ABCDEFGHJK'', b \<leftarrow> ''ABCDEFGHJK''])) '','')
         ''key'',
       Search_request ''KK'' ''key''])"
  (is "fetchTokens sample_runtime ?up SOL_MINT ''key'' = (?res, ?sent) \<and>
       handler sample_runtime ?up (Some ''key'') ?req = (?response, ?sent)")
proof -
  have run: "fetchTokens sample_runtime ?up SOL_MINT ''key'' = (?res, ?sent)"
    by code_simp
  have last: "2 < length ?sent"
    by simp
  have failed: "answered_not_ok ?up ?sent 2"
    by (simp add: answered_not_ok_def)
  have get: "request_method ?req = Some ''GET''"
    by simp
  have valid: "validate_address sample_runtime (query_address ?req) = Inr SOL_MINT"
    by (simp add: validate_address_def sample_runtime_def base58_string_def SOL_MINT_def)
  have cors: "setCorsHeaders ?req = []"
    by (simp add: setCorsHeaders_def isAllowedOrigin_def)
  from upstream_failure_aborts [OF run last failed, of ?req] get valid cors run
  show ?thesis
    by simp
qed

text \<open>
  Claim C5. When the aggregation returns the token list, every search request was
  answered with a list of metadata records, and the token list has exactly one Token
  Record for each of these records, in their order: the record built from it, with the
  same identifier and with the balance of this identifier, which is 0 when the
  identifier is not a key of the balance object. So an identifier of the balance object
  that is in no search answer is the \<open>mint\<close> of no Token Record.
\<close>

theorem output_follows_metadata:
  assumes "fetchTokens rt up address key = (Inr out, sent)"
    and "holdings_endpoint up [] (Holdings_request address key) = Success holdingsData"
    and "collect_balances rt holdingsData = Inr m"
  shows "(\<forall>j. 1 \<le> j \<and> j < length sent \<longrightarrow>
            (\<exists>tokenDataBatch.
               search_endpoint up (take j sent) (sent ! j) = Success tokenDataBatch)) \<and>
         list_all2 (\<lambda>token r. toTokenData rt m token = Inr r)
           (concat (search_answers up sent)) out \<and>
         length out = length (concat (search_answers up sent)) \<and>
         map mint out = map token_id (concat (search_answers up sent)) \<and>
         (\<forall>j < length out.
            amount (out ! j) = balance_or_zero m (token_id (concat (search_answers up sent) ! j)) \<and>
            (token_id (concat (search_answers up sent) ! j) \<notin> set (Object_keys m) \<longrightarrow>
               amount (out ! j) = 0)) \<and>
         (\<forall>k \<in> set (Object_keys m).
            k \<notin> token_id ` set (concat (search_answers up sent)) \<longrightarrow> k \<notin> mint ` set out)"
proof -
  let ?metadata = "concat (search_answers up sent)"
  from assms(1) obtain holdingsData' m' per_batch
    where "holdings_endpoint up [] (Holdings_request address key) = Success holdingsData'"
      and "collect_balances rt holdingsData' = Inr m'"
      and out: "out = concat per_batch"
      and "list_all2 (\<lambda>answer records. map_tokens rt m' answer = Inr records)
           (search_answers up sent) per_batch"
      and answered: "\<forall>j. 1 \<le> j \<and> j < length sent \<longrightarrow>
           (\<exists>tokenDataBatch.
              search_endpoint up (take j sent) (sent ! j) = Success tokenDataBatch)"
    by (rule fetchTokens_Inr)
  with assms(2,3) have "list_all2 (\<lambda>answer records. map_tokens rt m answer = Inr records)
           (search_answers up sent) per_batch"
    by simp
  then have each: "list_all2 (\<lambda>token r. toTokenData rt m token = Inr r) ?metadata out"
    unfolding out by (rule toTokenData_concat)
  then have len: "length out = length ?metadata"
    by (simp add: list_all2_lengthD)
  have at: "toTokenData rt m (?metadata ! j) = Inr (out ! j)" if "j < length out" for j
    using list_all2_nthD2 [OF each that] .
  have mints: "map mint out = map token_id ?metadata"
  proof (rule nth_equalityI)
    show "length (map mint out) = length (map token_id ?metadata)"
      by (simp add: len)
  next
    fix j
    assume "j < length (map mint out)"
    then have j: "j < length out"
      by simp
    from toTokenData_fields(1) [OF at [OF j]] j len
    show "map mint out ! j = map token_id ?metadata ! j"
      by simp
  qed
  have amounts: "amount (out ! j) = balance_or_zero m (token_id (?metadata ! j)) \<and>
            (token_id (?metadata ! j) \<notin> set (Object_keys m) \<longrightarrow> amount (out ! j) = 0)"
    if "j < length out" for j
  proof -
    from toTokenData_fields(2) [OF at [OF that]]
    have a: "amount (out ! j) = balance_or_zero m (token_id (?metadata ! j))" .
    moreover have "balance_or_zero m k = 0" if "k \<notin> set (Object_keys m)" for k
    proof -
      from that have "map_of m k = None"
        by (simp add: Object_keys_def map_of_eq_None_iff)
      then show ?thesis
        by (simp add: balance_or_zero_def)
    qed
    ultimately show ?thesis
      by simp
  qed
  have dropped: "k \<notin> mint ` set out" if "k \<notin> token_id ` set ?metadata" for k
  proof -
    have "mint ` set out = set (map mint out)"
      by simp
    also have "\<dots> = token_id ` set ?metadata"
      by (simp only: mints) simp
    finally show ?thesis
      using that by simp
  qed
  from answered each len mints amounts dropped show ?thesis
    by blast
qed

theorem output_follows_metadata_witness:
  "fetchTokens sample_runtime
     \<lparr> holdings_endpoint = \<lambda>sent req. Success
         \<lparr> holdings_amount = ''5000000000'',
           holdings_tokens =
             [(''MINT1'', [\<lparr> account_amount = ''100'' \<rparr>, \<lparr> account_amount = ''200'' \<rparr>]),
              (''MINT2'', [\<lparr> account_amount = ''0'' \<rparr>])] \<rparr>,
       search_endpoint = \<lambda>sent req. Success
         [\<lparr> token_id = ''MINT1'', token_name = ''Mint One'', token_symbol = ''M1'',
            token_decimals = Fin 2, token_icon = None, token_usdPrice = None,
            token_isVerified = None, token_stats24h = None \<rparr>,
          \<lparr> token_id = ''MINT9'', token_name = ''Mint Nine'', token_symbol = ''M9'',
            token_decimals = Fin 0, token_icon = None, token_usdPrice = None,
            token_isVerified = None, token_stats24h = None \<rparr>] \<rparr>
     SOL_MINT ''key''
   = (Inr [\<lparr> mint = ''MINT1'', amount = 300, name = ''Mint One'', symbol = ''M1'',
             icon = None, decimals = Fin 2, usdPriceUnit = None, usdValue = None,
             jupiterIsVerified = False, priceChange24hPercent = None \<rparr>,
           \<lparr> mint = ''MINT9'', amount = 0, name = ''Mint Nine'', symbol = ''M9'',
             icon = None, decimals = Fin 0, usdPriceUnit = None, usdValue = None,
             jupiterIsVerified = False, priceChange24hPercent = None \<rparr>],
      [Holdings_request SOL_MINT ''key'',
       Search_request (SOL_MINT @ '','' @ ''MINT1'') ''key''])
   \<and> collect_balances sample_runtime
         \<lparr> holdings_amount = ''5000000000'',
           holdings_tokens =
             [(''MINT1'', [\<lparr> account_amount = ''100'' \<rparr>, \<lparr> account_amount = ''200'' \<rparr>]),
              (''MINT2'', [\<lparr> account_amount = ''0'' \<rparr>])] \<rparr>
       = Inr [(SOL_MINT, 5000000000), (''MINT1'', 300)]
   \<and> SOL_MINT \<in> set (Object_keys [(SOL_MINT, 5000000000), (''MINT1'', 300)])
   \<and> ''MINT9'' \<notin> set (Object_keys [(SOL_MINT, 5000000000), (''MINT1'', 300)])"
  (is "fetchTokens sample_runtime ?up SOL_MINT ''key'' = (Inr ?out, ?sent) \<and>
       collect_balances sample_runtime ?h = Inr ?m \<and> ?native \<and> ?nine")
proof -
  have run: "fetchTokens sample_runtime ?up SOL_MINT ''key'' = (Inr ?out, ?sent)"
    by code_simp
  have answer: "holdings_endpoint ?up [] (Holdings_request SOL_MINT ''key'') = Success ?h"
    by simp
  have collected: "collect_balances sample_runtime ?h = Inr ?m"
    by code_simp
  have keys: "?native \<and> ?nine"
    by code_simp
  from output_follows_metadata [OF run answer collected] run collected keys
  show ?thesis
    by blast
qed

lemma length_search_answers: "length (search_answers up sent) = length sent - 1"
  by (simp add: search_answers_def)

lemma search_answers_nth:
  assumes "Suc j < length sent"
    and "search_endpoint up (take (Suc j) sent) (sent ! Suc j) = Success tokenDataBatch"
  shows "search_answers up sent ! j = tokenDataBatch"
  using assms by (simp add: search_answers_def)

text \<open>
  Claim C6. When the aggregation returns the token list, its order is fixed by the run:
  the identifier list is the insertion order of the balance object (the native
  identifier, then the other identifiers where an entry with a sum greater than zero
  first comes in the holdings response); the search requests are those of its batches of
  100, in order; the \<open>j\<close>-th search answer is the answer to the request of the \<open>j\<close>-th
  batch; and the token list is, batch after batch in this order, the Token Records of
  the records of the answer, in the order of the answer.
\<close>

theorem output_order:
  assumes "fetchTokens rt up address key = (Inr out, sent)"
    and "holdings_endpoint up [] (Holdings_request address key) = Success holdingsData"
    and "collect_balances rt holdingsData = Inr m"
  shows "Object_keys m =
           insertion_order [SOL_MINT]
             (map fst (filter (\<lambda>(k, tokens). 0 < entry_sum rt tokens)
                (holdings_tokens holdingsData))) \<and>
         sent = Holdings_request address key #
                  map (\<lambda>batch. Search_request (join batch '','') key)
                    (batches_from (Object_keys m) 0) \<and>
         length (search_answers up sent) = length (batches_from (Object_keys m) 0) \<and>
         (\<forall>j < length (batches_from (Object_keys m) 0).
            search_endpoint up (take (Suc j) sent)
              (Search_request (join (batches_from (Object_keys m) 0 ! j) '','') key)
            = Success (search_answers up sent ! j)) \<and>
         (\<exists>per_batch. out = concat per_batch \<and>
            list_all2
              (\<lambda>answer records.
                 list_all2 (\<lambda>token r. toTokenData rt m token = Inr r) answer records)
              (search_answers up sent) per_batch)"
proof -
  let ?batches = "batches_from (Object_keys m) 0"
  from assms(1) obtain holdingsData' m' per_batch
    where "holdings_endpoint up [] (Holdings_request address key) = Success holdingsData'"
      and "collect_balances rt holdingsData' = Inr m'"
      and "sent = Holdings_request address key #
                  map (search_request_of key) (batches_from (Object_keys m') 0)"
      and out: "out = concat per_batch"
      and "list_all2 (\<lambda>answer records. map_tokens rt m' answer = Inr records)
           (search_answers up sent) per_batch"
      and answered: "\<forall>j. 1 \<le> j \<and> j < length sent \<longrightarrow>
           (\<exists>tokenDataBatch.
              search_endpoint up (take j sent) (sent ! j) = Success tokenDataBatch)"
    by (rule fetchTokens_Inr)
  with assms(2,3)
  have sent: "sent = Holdings_request address key # map (search_request_of key) ?batches"
    and records: "list_all2 (\<lambda>answer records. map_tokens rt m answer = Inr records)
           (search_answers up sent) per_batch"
    by simp_all
  have keys: "Object_keys m =
           insertion_order [SOL_MINT]
             (map fst (filter (\<lambda>(k, tokens). 0 < entry_sum rt tokens)
                (holdings_tokens holdingsData)))"
    using assms(3) by (rule collect_balances_keys)
  from sent have requests: "sent = Holdings_request address key #
                  map (\<lambda>batch. Search_request (join batch '','') key) ?batches"
    by (simp add: search_request_of_def [abs_def])
  from sent have count: "length (search_answers up sent) = length ?batches"
    by (simp add: length_search_answers)
  have nth: "search_endpoint up (take (Suc j) sent)
              (Search_request (join (?batches ! j) '','') key)
            = Success (search_answers up sent ! j)"
    if j: "j < length ?batches" for j
  proof -
    from sent j have len: "Suc j < length sent"
      by simp
    from sent j have req: "sent ! Suc j = Search_request (join (?batches ! j) '','') key"
      by (simp add: search_request_of_def)
    from answered len obtain tokenDataBatch
      where a: "search_endpoint up (take (Suc j) sent) (sent ! Suc j) = Success tokenDataBatch"
      by auto
    from search_answers_nth [OF len a] a req show ?thesis
      by simp
  qed
  from records have "list_all2
              (\<lambda>answer records.
                 list_all2 (\<lambda>token r. toTokenData rt m token = Inr r) answer records)
              (search_answers up sent) per_batch"
    by (rule list_all2_mono) (rule map_tokens_Inr_D)
  with out keys requests count nth show ?thesis
    by blast
qed

theorem output_order_witness:
  "fetchTokens sample_runtime
     \<lparr> holdings_endpoint = \<lambda>sent req. Success
         \<lparr> holdings_amount = ''5000000000'',
           holdings_tokens =
             [(''MINT1'', [\<lparr> account_amount = ''100'' \<rparr>, \<lparr> account_amount = ''200'' \<rparr>])] \<rparr>,
       search_endpoint = \<lambda>sent req. Success
         [\<lparr> token_id = SOL_MINT, token_name = ''Wrapped SOL'', token_symbol = ''SOL'',
            token_decimals = Fin 9, token_icon = None, token_usdPrice = Some (Fin 150),
            token_isVerified = Some True, token_stats24h = None \<rparr>,
          \<lparr> token_id = ''MINT1'', token_name = ''Mint One'', token_symbol = ''M1'',
            token_decimals = Fin 2, token_icon = None, token_usdPrice = None,
            token_isVerified = None, token_stats24h = None \<rparr>] \<rparr>
     SOL_MINT ''key''
   = (Inr [\<lparr> mint = SOL_MINT, amount = 5000000000, name = ''Solana'', symbol = ''SOL'',
             icon = None, decimals = Fin 9, usdPriceUnit = Some (Fin 150),
             usdValue = Some (Fin 750), jupiterIsVerified = True,
             priceChange24hPercent = None \<rparr>,
           \<lparr> mint = ''MINT1'', amount = 300, name = ''Mint One'', symbol = ''M1'',
             icon = None, decimals = Fin 2, usdPriceUnit = None, usdValue = None,
             jupiterIsVerified = False, priceChange24hPercent = None \<rparr>],
      [Holdings_request SOL_MINT ''key'',
       Search_request (SOL_MINT @ '','' @ ''MINT1'') ''key''])
   \<and> collect_balances sample_runtime
         \<lparr> holdings_amount = ''5000000000'',
           holdings_tokens =
             [(''MINT1'', [\<lparr> account_amount = ''100'' \<rparr>, \<lparr> account_amount = ''200'' \<rparr>])] \<rparr>
       = Inr [(SOL_MINT, 5000000000), (''MINT1'', 300)]
   \<and> Object_keys [(SOL_MINT, 5000000000), (''MINT1'', 300)] = [SOL_MINT, ''MINT1'']"
  (is "fetchTokens sample_runtime ?up SOL_MINT ''key'' = (Inr ?out, ?sent) \<and>
       collect_balances sample_runtime ?h = Inr ?m \<and> ?keys")
proof -
  have run: "fetchTokens sample_runtime ?up SOL_MINT ''key'' = (Inr ?out, ?sent)"
    by code_simp
  have answer: "holdings_endpoint ?up [] (Holdings_request SOL_MINT ''key'') = Success ?h"
    by simp
  have collected: "collect_balances sample_runtime ?h = Inr ?m"
    by code_simp
  have keys: ?keys
    by code_simp
  from output_order [OF run answer collected] run collected keys
  show ?thesis
    by blast
qed

lemma validate_address_bad:
  assumes "address = Absent \<or> (\<exists>vs. address = Multiple vs) \<or>
           (\<exists>s. address = Single s \<and> \<not> isAddress rt s)"
  shows "\<exists>message. validate_address rt address = Inl (400, message)"
  using assms by (cases address) (auto simp: validate_address_def)

lemma handler_validation_failed:
  assumes "validate_address rt (query_address req) = Inl (code, message)"
  shows "snd (handler rt up JUPITER_API_KEY req) = []"
    and "request_method req = Some ''GET'' \<Longrightarrow>
         fst (handler rt up JUPITER_API_KEY req) =
           \<lparr> status = code, headers = setCorsHeaders req, body = Error_body message \<rparr>"
  using assms by (simp_all add: handler_def Let_def)

text \<open>
  Claim C7. The validator rejects with the status 400 a parameter \<open>address\<close> that is
  absent (\<open>Address parameter is required\<close>), that is an array (\<open>Address parameter must
  be a single value\<close>), or that is a string the address-format predicate does not accept
  (\<open>Invalid address parameter\<close> when the string is not empty). For every request with
  such a parameter, of any method, the handler sends no upstream request; a GET request,
  the only method that reaches the validator, is answered with this status 400 and
  message.
\<close>

theorem invalid_address_rejected:
  assumes "address = Absent \<or> (\<exists>vs. address = Multiple vs) \<or>
           (\<exists>s. address = Single s \<and> \<not> isAddress rt s)"
  shows "(\<exists>message. validate_address rt address = Inl (400, message)) \<and>
         (address = Absent \<longrightarrow>
            validate_address rt address = Inl (400, ''Address parameter is required'')) \<and>
         (\<forall>vs. address = Multiple vs \<longrightarrow>
            validate_address rt address
              = Inl (400, ''Address parameter must be a single value'')) \<and>
         (\<forall>s. address = Single s \<longrightarrow> s \<noteq> [] \<longrightarrow>
            validate_address rt address = Inl (400, ''Invalid address parameter'')) \<and>
         (\<forall>req. query_address req = address \<longrightarrow>
            snd (handler rt up JUPITER_API_KEY req) = [] \<and>
            (request_method req = Some ''GET'' \<longrightarrow>
               (\<exists>message.
                  validate_address rt address = Inl (400, message) \<and>
                  fst (handler rt up JUPITER_API_KEY req) =
                    \<lparr> status = 400, headers = setCorsHeaders req,
                       body = Error_body message \<rparr>)))"
proof -
  from validate_address_bad [OF assms] obtain message
    where v: "validate_address rt address = Inl (400, message)"
    by blast
  have absent: "address = Absent \<longrightarrow>
            validate_address rt address = Inl (400, ''Address parameter is required'')"
    by (simp add: validate_address_def)
  have multiple: "\<forall>vs. address = Multiple vs \<longrightarrow>
            validate_address rt address
              = Inl (400, ''Address parameter must be a single value'')"
    by (simp add: validate_address_def)
  have invalid: "\<forall>s. address = Single s \<longrightarrow> s \<noteq> [] \<longrightarrow>
            validate_address rt address = Inl (400, ''Invalid address parameter'')"
    using assms by (auto simp: validate_address_def)
  have handled: "snd (handler rt up JUPITER_API_KEY req) = [] \<and>
            (request_method req = Some ''GET'' \<longrightarrow>
               (\<exists>message.
                  validate_address rt address = Inl (400, message) \<and>
                  fst (handler rt up JUPITER_API_KEY req) =
                    \<lparr> status = 400, headers = setCorsHeaders req,
                       body = Error_body message \<rparr>))"
    if "query_address req = address" for req
    using handler_validation_failed [of rt req 400 message up JUPITER_API_KEY] v that
    by simp
  from v absent multiple invalid handled show ?thesis
    by blast
qed

theorem invalid_address_rejected_witness:
  "\<not> isAddress sample_runtime ''not-an-address'' \<and>
   validate_address sample_runtime (Single ''not-an-address'')
     = Inl (400, ''Invalid address parameter'') \<and>
   handler sample_runtime
     \<lparr> holdings_endpoint = \<lambda>sent req. Rejected, search_endpoint = \<lambda>sent req. Rejected \<rparr>
     (Some ''key'')
     \<lparr> request_method = Some ''GET'', request_origin = Some ''http://localhost:3000'',
       query_address = Single ''not-an-address'' \<rparr>
   = (\<lparr> status = 400,
        headers = [(''Access-Control-Allow-Origin'', ''http://localhost:3000''),
                   (''Access-Control-Allow-Methods'', ''GET, OPTIONS''),
                   (''Access-Control-Allow-Headers'', ''Content-Type'')],
        body = Error_body ''Invalid address parameter'' \<rparr>, [])"
  using invalid_address_rejected
    [of "Single ''not-an-address''" sample_runtime
        "\<lparr> holdings_endpoint = \<lambda>sent req. Rejected, search_endpoint = \<lambda>sent req. Rejected \<rparr>"
        "Some ''key''"]
  by (simp add: sample_runtime_def base58_string_def validate_address_def handler_def
      setCorsHeaders_def isAllowedOrigin_def ALLOWED_ORIGINS_def localhost_origin_def)

lemma usdValue_of_part_000_eq: "usdValue_of_part_000 rt b dec price = usdValue_of rt b dec price"
  by (simp add: usdValue_of_part_000_def usdValue_of_def)

lemma toTokenData_part_000_eq: "toTokenData_part_000 rt m token = toTokenData rt m token"
  unfolding toTokenData_part_000_def toTokenData_def usdValue_of_part_000_eq ..

lemma sum_amounts_part_000_eq: "sum_amounts_part_000 rt tokens acc = sum_amounts rt tokens acc"
  by (induction tokens arbitrary: acc) (simp_all split: option.splits)

lemma add_holdings_part_000_eq: "add_holdings_part_000 rt entries m = add_holdings rt entries m"
proof (induction entries arbitrary: m)
  case Nil
  show ?case by simp
next
  case (Cons e entries)
  obtain mintAddress tokens where "e = (mintAddress, tokens)"
    by (cases e)
  with Cons.IH show ?case
    by (simp add: sum_amounts_part_000_eq split: sum.splits)
qed

lemma collect_balances_part_000_eq:
  "collect_balances_part_000 rt holdingsData = collect_balances rt holdingsData"
  by (simp add: collect_balances_part_000_def collect_balances_def add_holdings_part_000_eq
      split: option.splits)

lemma map_tokens_part_000_eq: "map_tokens_part_000 rt m tokens = map_tokens rt m tokens"
  by (induction tokens) (simp_all add: toTokenData_part_000_eq split: sum.splits)

lemma search_batches_part_000_eq:
  "search_batches_part_000 rt up key m mints i acc sent
     = search_batches rt up key m mints i acc sent"
proof (induction "length mints - i" arbitrary: i acc sent rule: less_induct)
  case less
  show ?case
  proof (cases "i < length mints")
    case True
    then have "length mints - (i + 100) < length mints - i"
      by simp
    from less.hyps [OF this] True show ?thesis
      by (simp add: search_batches_part_000.simps [of rt up key m mints i acc sent]
          search_batches.simps [of rt up key m mints i acc sent]
          map_tokens_part_000_eq Let_def
          split: response.splits sum.splits)
  next
    case False
    then show ?thesis
      by (simp add: search_batches_part_000.simps [of rt up key m mints i acc sent]
          search_batches.simps [of rt up key m mints i acc sent])
  qed
qed

text \<open>
  Claim C10. The \<open>fetchTokens\<close> of the two source files are the same function: for every
  runtime, every provider (its answers may depend on the requests sent so far), every
  address and every key, both return the same result, the same Token Records in the
  same order or the same error, and send the same requests.
\<close>

theorem fetchTokens_versions_agree:
  "fetchTokens_part_000 rt up address key = fetchTokens rt up address key"
  unfolding fetchTokens_part_000_def fetchTokens_def collect_balances_part_000_eq
    search_batches_part_000_eq ..

end
